theory Spec2Isabelle
  imports Main "HOL-Library.Word" "HOL-Library.List_Lexorder" "HOL-Library.Char_ord"
begin

section \<open>Values of the JavaScript runtime\<close>

text \<open>
  Exceptions of the runtime are values. The errors the modelled code can meet are the
  \<open>RangeError\<close> of \<open>Date.prototype.toISOString\<close> on an invalid date, the
  \<open>TypeError\<close> of the \<open>URL\<close> constructor and of a property read on
  \<open>null\<close> or \<open>undefined\<close>, the \<open>SyntaxError\<close> of \<open>JSON.parse\<close>, and the
  rejection of an I/O or network call, which carries its code.
\<close>

datatype error = RangeError | TypeError | SyntaxError | IOError string

text \<open>
  A \<open>Date\<close> is used by the code through \<open>toISOString\<close> only. A valid date is
  represented by its ISO rendering; \<open>InvalidDate\<close> is the date whose time value is
  \<open>NaN\<close>, on which \<open>toISOString\<close> throws.
\<close>

datatype Date = ValidDate string | InvalidDate

fun toISOString :: "Date \<Rightarrow> error + string" where
  "toISOString (ValidDate stamp) = Inr stamp"
| "toISOString InvalidDate = Inl RangeError"

text \<open>
  A \<open>Set<string>\<close> iterates in insertion order and holds each value once: it is its
  list of elements in insertion order. \<open>setAdd\<close> is \<open>Set.prototype.add\<close>,
  \<open>newSet\<close> the constructor applied to an array, \<open>setHas\<close> is \<open>has\<close>,
  \<open>setSize\<close> is \<open>size\<close>, and the spread \<open>[...s]\<close> is the list itself.
\<close>

definition setAdd :: "'a list \<Rightarrow> 'a \<Rightarrow> 'a list" where
  "setAdd s x = (if x \<in> set s then s else s @ [x])"

definition newSet :: "'a list \<Rightarrow> 'a list" where
  "newSet xs = foldl setAdd [] xs"

definition setHas :: "'a list \<Rightarrow> 'a \<Rightarrow> bool" where
  "setHas s x = (x \<in> set s)"

definition setSize :: "'a list \<Rightarrow> int" where
  "setSize s = int (length s)"

text \<open>
  \<open>Array.prototype.join\<close> on strings, and the decimal rendering of a number that
  is an integer, as a template literal or \<open>join\<close> produces it.
\<close>

fun join :: "string \<Rightarrow> string list \<Rightarrow> string" where
  "join separator [] = []"
| "join separator [x] = x"
| "join separator (x # y # rest) = x @ separator @ join separator (y # rest)"

definition digit :: "nat \<Rightarrow> char" where
  "digit n = ''0123456789'' ! (n mod 10)"

function showNat :: "nat \<Rightarrow> string" where
  "showNat n = (if n < 10 then [digit n] else showNat (n div 10) @ [digit n])"
  by pat_completeness auto
termination
  by (relation "measure (\<lambda>n. n)") auto

declare showNat.simps [simp del]

definition showNumber :: "int \<Rightarrow> string" where
  "showNumber i = (if i < 0 then CHR ''-'' # showNat (nat (- i)) else showNat (nat i))"

section \<open>The cluster comparison (monitor-printers.ts)\<close>

text \<open>
  The file holds three revisions of the script. The model follows the first, the
  current one, whose loop catches the errors of a pass; \<open>compareResults\<close> is the same
  in all three. Of a cluster the comparison reads two fields.
\<close>

record ClusterResponse =
  cluster_id :: string
  is_online :: bool

record Comparison =
  dateTime :: string
  appeared :: "string list"
  gone :: "string list"
  onlineCount :: int
  offlineCount :: int

definition getOnlineClusterIds :: "ClusterResponse list \<Rightarrow> string list" where
  "getOnlineClusterIds clusters = newSet (map cluster_id (filter is_online clusters))"

definition compareResults ::
  "ClusterResponse list \<Rightarrow> ClusterResponse list \<Rightarrow> Date \<Rightarrow> error + Comparison" where
  "compareResults previous current date =
     (let previousOnlineIds = getOnlineClusterIds previous;
          currentOnlineIds = getOnlineClusterIds current
      in case toISOString date of
           Inl e \<Rightarrow> Inl e
         | Inr stamp \<Rightarrow> Inr \<lparr>
             dateTime = stamp,
             appeared = filter (\<lambda>id. \<not> setHas previousOnlineIds id) currentOnlineIds,
             gone = filter (\<lambda>id. \<not> setHas currentOnlineIds id) previousOnlineIds,
             onlineCount = setSize currentOnlineIds,
             offlineCount = int (length current) - setSize currentOnlineIds \<rparr>)"

text \<open>The set of identifiers that some entry of the list reports online.\<close>

definition onlineIds :: "ClusterResponse list \<Rightarrow> string set" where
  "onlineIds clusters = cluster_id ` set (filter is_online clusters)"

section \<open>Base64\<close>

text \<open>
  \<open>Buffer.prototype.toString('base64')\<close>: three bytes give four characters of the
  alphabet, and a last group of one or two bytes is padded with \<open>=\<close>.
\<close>

type_synonym bytes = "8 word list"

definition base64Alphabet :: string where
  "base64Alphabet = ''ABCDEFGHIJKLMNOPQRSTUVWXYZabcdefghijklmnopqrstuvwxyz0123456789+/''"

definition base64Char :: "nat \<Rightarrow> char" where
  "base64Char n = base64Alphabet ! (n mod 64)"

fun base64 :: "bytes \<Rightarrow> string" where
  "base64 [] = []"
| "base64 [a] =
     [base64Char (unat a div 4), base64Char (unat a mod 4 * 16), CHR ''='', CHR ''='']"
| "base64 [a, b] =
     [base64Char (unat a div 4), base64Char (unat a mod 4 * 16 + unat b div 16),
      base64Char (unat b mod 16 * 4), CHR ''='']"
| "base64 (a # b # c # rest) =
     [base64Char (unat a div 4), base64Char (unat a mod 4 * 16 + unat b div 16),
      base64Char (unat b mod 16 * 4 + unat c div 64), base64Char (unat c mod 64)]
     @ base64 rest"

section \<open>The sign-in flow (digital-factory.ts)\<close>

text \<open>
  The file holds two revisions of the class. The model follows the first; the second
  adds a token timestamp and the refresh of the token, and leaves the checks and the
  reset of the callback handler as they are. \<open>CLIENT_ID\<close> and \<open>SCOPES\<close> come
  from the environment of the process.
\<close>

definition OAUTH_SERVER_URL :: string where
  "OAUTH_SERVER_URL = ''https://account.ultimaker.com''"

definition CALLBACK_SERVER_PORT :: nat where
  "CALLBACK_SERVER_PORT = 32118"

record config =
  CLIENT_ID :: string
  SCOPES :: string

record TokenResponse =
  access_token :: string
  expires_in :: int
  refresh_token :: string
  scope :: string
  token_type :: string

text \<open>The callback server is known to the object as a reference or \<open>null\<close>.\<close>

datatype Server = Server

text \<open>
  Search parameters are the list of their name and value pairs; \<open>get\<close> returns the
  first value of a name, or \<open>null\<close>. A string or \<open>null\<close> is truthy when it is a
  non-empty string.
\<close>

type_synonym URLSearchParams = "(string \<times> string) list"

definition searchParamsGet :: "URLSearchParams \<Rightarrow> string \<Rightarrow> string option" where
  "searchParamsGet params name = map_of params name"

definition truthy :: "string option \<Rightarrow> bool" where
  "truthy v = (case v of None \<Rightarrow> False | Some s \<Rightarrow> s \<noteq> [])"

text \<open>
  A request is what the handler sees of it: no \<open>url\<close> (undefined or empty), a
  target from which the \<open>URL\<close> constructor cannot build a URL after the origin of the
  callback (it throws a \<open>TypeError\<close>; the target \<open>*\<close> and an absolute URL are
  such targets), or the search parameters of the URL it builds.
\<close>

datatype IncomingMessage = NoUrl | InvalidUrl | ParsedUrl URLSearchParams

text \<open>
  What the token endpoint answers when asked: the request or the reading of its body is
  rejected, or the body is JSON, \<open>null\<close> or a token response.
\<close>

datatype tokenReply = Rejected error | Body "TokenResponse option"

text \<open>
  What the code does to the world, in order. A printed line is made of literal text,
  of the \<open>prettyJSON\<close> rendering of a string, and of a serialized query.
\<close>

datatype piece = Lit string | Pretty string | Query URLSearchParams

datatype effect =
    CreateServer
  | Listen nat
  | CloseServer
  | Print "piece list"
  | FetchPost string URLSearchParams
  | WriteHead nat
  | End string
  | SignInCompleteResolve

text \<open>
  The private fields of the object, \<open>this._x\<close> written \<open>this_x\<close>. Of the resolver
  of the sign-in promise the object knows whether it is stored.
\<close>

record DigitalFactoryDemo =
  this_callbackServer :: "Server option"
  this_state :: "string option"
  this_pkceVerifier :: "string option"
  this_tokenPair :: "TokenResponse option"
  this_token_url :: "string option"
  this_authorizationUrl :: string
  this_redirectUri :: "string option"
  this_signInCompleteResolve :: bool

definition newDigitalFactoryDemo :: DigitalFactoryDemo where
  "newDigitalFactoryDemo = \<lparr>
     this_callbackServer = None, this_state = None, this_pkceVerifier = None,
     this_tokenPair = None, this_token_url = None,
     this_authorizationUrl = OAUTH_SERVER_URL @ ''/authorize'',
     this_redirectUri = None, this_signInCompleteResolve = False \<rparr>"

text \<open>
  The random bytes are given by the caller of the model; the digest behind the
  challenge (\<open>createHash('sha512').update(verifier).digest()\<close>) is a parameter.
\<close>

definition generateState :: "bytes \<Rightarrow> string" where
  "generateState randomBytes16 = base64 randomBytes16"

definition generatePKCEVerifier :: "bytes \<Rightarrow> string" where
  "generatePKCEVerifier randomBytes32 = base64 randomBytes32"

definition generatePKCEChallenge :: "(string \<Rightarrow> bytes) \<Rightarrow> string \<Rightarrow> string" where
  "generatePKCEChallenge sha512 verifier = base64 (sha512 verifier)"

text \<open>A string or \<open>null\<close> as \<open>URLSearchParams\<close> stores it.\<close>

definition stringOrNull :: "string option \<Rightarrow> string" where
  "stringOrNull v = (case v of None \<Rightarrow> ''null'' | Some s \<Rightarrow> s)"

definition signInQuery ::
  "config \<Rightarrow> (string \<Rightarrow> bytes) \<Rightarrow> string \<Rightarrow> string \<Rightarrow> string \<Rightarrow> URLSearchParams" where
  "signInQuery cfg sha512 redirectUri st verifier =
     [(''client_id'', CLIENT_ID cfg),
      (''redirect_uri'', redirectUri),
      (''scope'', SCOPES cfg),
      (''state'', st),
      (''response_type'', ''code''),
      (''code_challenge'', generatePKCEChallenge sha512 verifier),
      (''code_challenge_method'', ''S512'')]"

text \<open>
  \<open>signIn\<close> returns the object as it leaves it and what it did; the promise it
  returns is resolved by the handler.
\<close>

definition signIn ::
  "config \<Rightarrow> (string \<Rightarrow> bytes) \<Rightarrow> bytes \<Rightarrow> bytes \<Rightarrow> DigitalFactoryDemo
     \<Rightarrow> DigitalFactoryDemo \<times> effect list" where
  "signIn cfg sha512 randomBytes16 randomBytes32 d =
     (let redirectUri = ''http://localhost:'' @ showNat CALLBACK_SERVER_PORT @ ''/callback'';
          st = generateState randomBytes16;
          verifier = generatePKCEVerifier randomBytes32;
          query = signInQuery cfg sha512 redirectUri st verifier
      in (d\<lparr> this_callbackServer := Some Server,
              this_token_url := Some (OAUTH_SERVER_URL @ ''/token''),
              this_redirectUri := Some redirectUri,
              this_state := Some st,
              this_pkceVerifier := Some verifier,
              this_signInCompleteResolve := True \<rparr>,
          [CreateServer, Listen CALLBACK_SERVER_PORT,
           Print [Lit ''Open the following URL in your browser and log in to Ultimaker Digital Factory:''],
           Print [Lit []],
           Print [Lit ''    '', Lit (this_authorizationUrl d), Lit ''?'', Query query],
           Print [Lit []]]))"

definition tokenRequestBody ::
  "config \<Rightarrow> DigitalFactoryDemo \<Rightarrow> string \<Rightarrow> string \<Rightarrow> URLSearchParams" where
  "tokenRequestBody cfg d code pkceVerifier =
     [(''client_id'', CLIENT_ID cfg),
      (''redirect_uri'', stringOrNull (this_redirectUri d)),
      (''grant_type'', ''authorization_code''),
      (''scope'', SCOPES cfg),
      (''code'', code),
      (''code_verifier'', pkceVerifier)]"

text \<open>
  The token request: what the promise settles with, and the request sent. Without a
  token URL \<open>fetch\<close> rejects before anything is sent.
\<close>

definition requestAccessToken ::
  "config \<Rightarrow> DigitalFactoryDemo \<Rightarrow> string \<Rightarrow> string \<Rightarrow> tokenReply
     \<Rightarrow> (error + TokenResponse option) \<times> effect list" where
  "requestAccessToken cfg d code pkceVerifier reply =
     (case this_token_url d of
        None \<Rightarrow> (Inl TypeError, [])
      | Some url \<Rightarrow>
          (case reply of Rejected e \<Rightarrow> Inl e | Body json \<Rightarrow> Inr json,
           [FetchPost url (tokenRequestBody cfg d code pkceVerifier)]))"

text \<open>
  The handler, run to its end on one request with no other callback handled in
  between: the object as it leaves it, how its promise settles, and what it did. A
  \<open>null\<close> body makes the read of \<open>access_token\<close> throw, after the assignment to
  the token pair.
\<close>

definition handleRequest ::
  "config \<Rightarrow> DigitalFactoryDemo \<Rightarrow> IncomingMessage \<Rightarrow> tokenReply
     \<Rightarrow> DigitalFactoryDemo \<times> (error + unit) \<times> effect list" where
  "handleRequest cfg d req reply =
     (case req of
        NoUrl \<Rightarrow> (d, Inr (), [])
      | InvalidUrl \<Rightarrow>
          if \<not> truthy (this_pkceVerifier d) then (d, Inr (), []) else (d, Inl TypeError, [])
      | ParsedUrl params \<Rightarrow>
          if \<not> truthy (this_pkceVerifier d) then (d, Inr (), [])
          else
            let code = searchParamsGet params ''code'' in
            if \<not> truthy code then (d, Inr (), [])
            else
              let st = searchParamsGet params ''state'' in
              if \<not> truthy st \<or> st \<noteq> this_state d then (d, Inr (), [])
              else
                (case requestAccessToken cfg d (stringOrNull code)
                        (stringOrNull (this_pkceVerifier d)) reply of
                   (Inl e, sent) \<Rightarrow> (d, Inl e, sent)
                 | (Inr None, sent) \<Rightarrow> (d\<lparr> this_tokenPair := None \<rparr>, Inl TypeError, sent)
                 | (Inr (Some tok), sent) \<Rightarrow>
                     let effs = sent @
                           [Print [Lit ''Access token: '', Pretty (access_token tok)],
                            WriteHead 200,
                            End ''Sign in finished, you can now close this window.'']
                           @ (case this_callbackServer d of
                                None \<Rightarrow> [] | Some srv \<Rightarrow> [CloseServer]);
                         d' = d\<lparr> this_tokenPair := Some tok,
                                 this_callbackServer := None,
                                 this_state := None,
                                 this_pkceVerifier := None \<rparr>
                     in if this_signInCompleteResolve d'
                        then (d', Inr (), effs @ [SignInCompleteResolve])
                        else (d', Inl TypeError, effs)))"

text \<open>
  Requests handled one after the other, each to its end. Callbacks that overlap are
  modelled by \<open>serve\<close> below.
\<close>

fun handleRequests ::
  "config \<Rightarrow> DigitalFactoryDemo \<Rightarrow> (IncomingMessage \<times> tokenReply) list
     \<Rightarrow> DigitalFactoryDemo \<times> effect list" where
  "handleRequests cfg d [] = (d, [])"
| "handleRequests cfg d ((req, reply) # rest) =
     (case handleRequest cfg d req reply of
        (d', outcome, effs) \<Rightarrow>
          (case handleRequests cfg d' rest of (d'', effs') \<Rightarrow> (d'', effs @ effs')))"

text \<open>The bodies of the token requests of a trace, in order.\<close>

fun tokenRequests :: "effect list \<Rightarrow> URLSearchParams list" where
  "tokenRequests [] = []"
| "tokenRequests (FetchPost url body # es) = body # tokenRequests es"
| "tokenRequests (e # es) = tokenRequests es"

text \<open>
  The checks of the request: a non-empty \<open>code\<close> parameter, and a non-empty
  \<open>state\<close> parameter equal to the stored state.
\<close>

definition checksPass :: "DigitalFactoryDemo \<Rightarrow> IncomingMessage \<Rightarrow> bool" where
  "checksPass d req =
     (case req of
        ParsedUrl params \<Rightarrow>
          truthy (searchParamsGet params ''code'')
          \<and> truthy (searchParamsGet params ''state'')
          \<and> searchParamsGet params ''state'' = this_state d
      | _ \<Rightarrow> False)"

text \<open>The \<open>code_verifier\<close> of each token request of a trace.\<close>

definition verifiersSent :: "effect list \<Rightarrow> string option list" where
  "verifiersSent effs = map (\<lambda>body. searchParamsGet body ''code_verifier'') (tokenRequests effs)"

subsection \<open>Callbacks that overlap\<close>

text \<open>
  The handler is asynchronous: it runs up to the \<open>await\<close> of the token request and
  goes on when the answer is there, and other callbacks are handled meanwhile.
  \<open>beginRequest\<close> is the handler up to the \<open>await\<close>: how its promise settles if
  the handler ends there (\<open>None\<close> when it waits for the answer), and what it sent. It
  assigns no field. \<open>completeRequest\<close> is the handler from the answer on; it reads
  the fields as they are by then.
\<close>

definition beginRequest ::
  "config \<Rightarrow> DigitalFactoryDemo \<Rightarrow> IncomingMessage \<Rightarrow> (error + unit) option \<times> effect list" where
  "beginRequest cfg d req =
     (case req of
        NoUrl \<Rightarrow> (Some (Inr ()), [])
      | InvalidUrl \<Rightarrow>
          if \<not> truthy (this_pkceVerifier d) then (Some (Inr ()), [])
          else (Some (Inl TypeError), [])
      | ParsedUrl params \<Rightarrow>
          if \<not> truthy (this_pkceVerifier d) then (Some (Inr ()), [])
          else
            let code = searchParamsGet params ''code'' in
            if \<not> truthy code then (Some (Inr ()), [])
            else
              let st = searchParamsGet params ''state'' in
              if \<not> truthy st \<or> st \<noteq> this_state d then (Some (Inr ()), [])
              else
                (case this_token_url d of
                   None \<Rightarrow> (Some (Inl TypeError), [])
                 | Some url \<Rightarrow>
                     (None,
                      [FetchPost url (tokenRequestBody cfg d (stringOrNull code)
                         (stringOrNull (this_pkceVerifier d)))])))"

definition completeRequest ::
  "DigitalFactoryDemo \<Rightarrow> tokenReply \<Rightarrow> DigitalFactoryDemo \<times> (error + unit) \<times> effect list" where
  "completeRequest d reply =
     (case reply of
        Rejected e \<Rightarrow> (d, Inl e, [])
      | Body None \<Rightarrow> (d\<lparr> this_tokenPair := None \<rparr>, Inl TypeError, [])
      | Body (Some tok) \<Rightarrow>
          let effs =
                [Print [Lit ''Access token: '', Pretty (access_token tok)],
                 WriteHead 200,
                 End ''Sign in finished, you can now close this window.'']
                @ (case this_callbackServer d of None \<Rightarrow> [] | Some srv \<Rightarrow> [CloseServer]);
              d' = d\<lparr> this_tokenPair := Some tok,
                      this_callbackServer := None,
                      this_state := None,
                      this_pkceVerifier := None \<rparr>
          in if this_signInCompleteResolve d'
             then (d', Inr (), effs @ [SignInCompleteResolve])
             else (d', Inl TypeError, effs))"



section \<open>The cluster monitor (monitor-printers.ts)\<close>

subsection \<open>The CSV line\<close>

text \<open>
  The fields of the comparison joined by the separator; an array field is rendered by
  joining its elements with commas.
\<close>

definition csvLine :: "Comparison \<Rightarrow> string \<Rightarrow> string" where
  "csvLine comparison separator =
     join separator
       [dateTime comparison,
        join '','' (appeared comparison),
        join '','' (gone comparison),
        showNumber (onlineCount comparison),
        showNumber (offlineCount comparison)]"

subsection \<open>The loop\<close>

text \<open>
  The options of the script, with the defaults of the source.
\<close>

record MonitorClustersOptions =
  comparisonFile :: "string option"
  statusDir :: "string option"
  waitMS :: "nat option"

definition comparisonFileOf :: "MonitorClustersOptions \<Rightarrow> string" where
  "comparisonFileOf options =
     (case comparisonFile options of
        None \<Rightarrow> ''../cluster-monitoring-logs/cluster-monitoring.csv'' | Some f \<Rightarrow> f)"

definition waitMSOf :: "MonitorClustersOptions \<Rightarrow> nat" where
  "waitMSOf options = (case waitMS options of None \<Rightarrow> 60000 | Some ms \<Rightarrow> ms)"

definition statusDirOf :: "MonitorClustersOptions \<Rightarrow> string" where
  "statusDirOf options =
     (case statusDir options of None \<Rightarrow> ''../cluster-monitoring-logs'' | Some dir \<Rightarrow> dir)"

text \<open>
  What the world answers during one pass of the loop: what \<open>getClusters\<close> settles
  with (a rejection, a falsy value such as a response without \<open>data\<close>, or the list of
  clusters), the ISO rendering of \<open>new Date()\<close>, whether \<open>writeFile\<close> is rejected,
  and whether SIGINT arrives during the pass, before the wait or during it.
\<close>

datatype fetchResult = FetchFailed error | NoData | Clusters "ClusterResponse list"

datatype interrupt = NoInterrupt | WhileWorking | WhileWaiting

record iteration =
  fetched :: fetchResult
  now :: string
  writeFailure :: "error option"
  sigint :: interrupt

text \<open>
  What the script does to the world, in order. A logged line is made of literal text,
  numbers, the \<open>prettyJSON\<close> rendering of a comparison and a caught error.
  \<open>WriteFile\<close> carries the path, the clusters whose \<open>prettyJSON\<close> rendering is
  the text, and the error the write is rejected with, if it is; \<open>WaitAborted\<close> is a
  wait that SIGINT ends early.
\<close>

datatype monitorPiece =
    Text string
  | Number int
  | PrettyComparison Comparison
  | Thrown error

datatype monitorEffect =
    OnSigint
  | SignIn
  | Log "monitorPiece list"
  | GetPreviousClusterStatus string
  | CreateWriteStream string
  | GetClusters
  | WriteFile string "ClusterResponse list" "error option"
  | StreamWrite string
  | Wait nat
  | WaitAborted nat
  | StreamEnd

definition awaitAsync :: "nat \<Rightarrow> interrupt \<Rightarrow> monitorEffect list" where
  "awaitAsync ms i =
     (if i = WhileWaiting
      then [WaitAborted ms, Log [Text ''Aborting the monitoring...'']]
      else [Wait ms])"

definition logFileOf :: "string \<Rightarrow> string \<Rightarrow> string" where
  "logFileOf dir stamp =
     dir @ ''/'' @ map (\<lambda>c. if c = CHR '':'' then CHR ''-'' else c) stamp @ ''-clusters.json''"

definition caught :: "error \<Rightarrow> monitorEffect" where
  "caught ex = Log [Text ''An error occured while fetching cluster data: '', Thrown ex]"

text \<open>
  One pass of the loop body: the new value of \<open>previous\<close>, what the pass did, and
  whether the abort signal is set when the pass ends. The \<open>continue\<close> on a falsy
  answer goes back to the loop condition without the wait; such a pass can only be
  interrupted while it works, and \<open>WhileWaiting\<close> is read as \<open>WhileWorking\<close>
  there.
\<close>

definition monitorIteration ::
  "MonitorClustersOptions \<Rightarrow> ClusterResponse list option \<Rightarrow> iteration
     \<Rightarrow> ClusterResponse list option \<times> monitorEffect list \<times> bool" where
  "monitorIteration options previous it =
     (let wait = awaitAsync (waitMSOf options) (sigint it);
          aborted = (sigint it \<noteq> NoInterrupt);
          begun = [Log [Text ''Retrieving clusters...''], GetClusters]
      in case fetched it of
           FetchFailed ex \<Rightarrow> (previous, begun @ [caught ex] @ wait, aborted)
         | NoData \<Rightarrow> (previous, begun, aborted)
         | Clusters clusters \<Rightarrow>
             let logFile = logFileOf (statusDirOf options) (now it) in
             (case writeFailure it of
                Some ex \<Rightarrow>
                  (previous, begun @ [WriteFile logFile clusters (Some ex), caught ex] @ wait,
                   aborted)
              | None \<Rightarrow>
                  let found = begun @
                        [WriteFile logFile clusters None,
                         Log [Text ''Found '', Number (int (length clusters)),
                              Text '' clusters\<newline>'']]
                  in (case previous of
                        None \<Rightarrow> (Some clusters, found @ wait, aborted)
                      | Some earlier \<Rightarrow>
                          (case compareResults earlier clusters (ValidDate (now it)) of
                             Inl ex \<Rightarrow> (previous, found @ [caught ex] @ wait, aborted)
                           | Inr comparison \<Rightarrow>
                               (Some clusters,
                                found @
                                [StreamWrite (csvLine comparison '';'' @ ''\<newline>''),
                                 Log [Text ''Comparison resulted in '',
                                      PrettyComparison comparison, Text ''\<newline>'']]
                                @ wait,
                                aborted)))))"

text \<open>
  The loop over the passes the observation holds. The second component tells whether
  the loop has ended: it is \<open>False\<close> when the observed passes are used up with the
  abort signal unset, where the loop of the source goes on.
\<close>

fun monitorLoop ::
  "MonitorClustersOptions \<Rightarrow> ClusterResponse list option \<Rightarrow> iteration list
     \<Rightarrow> monitorEffect list \<times> bool" where
  "monitorLoop options previous [] = ([], False)"
| "monitorLoop options previous (it # rest) =
     (case monitorIteration options previous it of
        (previous', effs, aborted) \<Rightarrow>
          if aborted then (effs, True)
          else (case monitorLoop options previous' rest of
                  (effs', ended) \<Rightarrow> (effs @ effs', ended)))"

text \<open>
  How a promise ends: fulfilled, rejected with an error, or never settled.
\<close>

datatype settled = Fulfilled | RejectedWith error | Pending

text \<open>
  A run of \<open>monitorClusters\<close>: how the promise of \<open>signIn\<close> ends (it is pending
  until the callback arrives, and the later revision of the client rejects it on
  SIGINT), what \<open>getPreviousClusterStatus\<close> settles with (\<open>None\<close> for \<open>null\<close>
  or another falsy value), whether SIGINT arrives before the loop is reached, and the
  passes.
\<close>

record monitorRun =
  signedIn :: settled
  previousStatus :: "error + ClusterResponse list option"
  sigintBeforeLoop :: bool
  iterations :: "iteration list"

definition monitorClusters ::
  "MonitorClustersOptions \<Rightarrow> monitorRun \<Rightarrow> monitorEffect list \<times> settled" where
  "monitorClusters options run =
     (case signedIn run of
        Pending \<Rightarrow> ([OnSigint, SignIn], Pending)
      | RejectedWith ex \<Rightarrow> ([OnSigint, SignIn], RejectedWith ex)
      | Fulfilled \<Rightarrow>
          let begun = [OnSigint, SignIn, Log [Text ''Sign in completed.\<newline>''],
                       GetPreviousClusterStatus (statusDirOf options)]
          in case previousStatus run of
               Inl ex \<Rightarrow> (begun, RejectedWith ex)
             | Inr previous \<Rightarrow>
                 let opened = begun @ [CreateWriteStream (comparisonFileOf options)] in
                 if sigintBeforeLoop run then (opened @ [StreamEnd], Fulfilled)
                 else (case monitorLoop options previous (iterations run) of
                         (effs, ended) \<Rightarrow>
                           if ended then (opened @ effs @ [StreamEnd], Fulfilled)
                           else (opened @ effs, Pending)))"

text \<open>Counting what a trace did.\<close>

fun snapshotsWritten :: "monitorEffect list \<Rightarrow> nat" where
  "snapshotsWritten [] = 0"
| "snapshotsWritten (WriteFile file clusters None # es) = Suc (snapshotsWritten es)"
| "snapshotsWritten (e # es) = snapshotsWritten es"

fun csvRows :: "monitorEffect list \<Rightarrow> nat" where
  "csvRows [] = 0"
| "csvRows (StreamWrite line # es) = Suc (csvRows es)"
| "csvRows (e # es) = csvRows es"

fun signIns :: "monitorEffect list \<Rightarrow> nat" where
  "signIns [] = 0"
| "signIns (SignIn # es) = Suc (signIns es)"
| "signIns (e # es) = signIns es"

fun fetches :: "monitorEffect list \<Rightarrow> nat" where
  "fetches [] = 0"
| "fetches (GetClusters # es) = Suc (fetches es)"
| "fetches (e # es) = fetches es"

text \<open>
  The snapshot a pass leaves behind, if it does: the clusters fetched, when the fetch
  answered with a list and the file was written. The previous snapshot known after some
  passes is the one of the last pass that left one, or else the one known before them.
\<close>

definition snapshotOf :: "iteration \<Rightarrow> ClusterResponse list option" where
  "snapshotOf it =
     (case fetched it of
        Clusters clusters \<Rightarrow> (if writeFailure it = None then Some clusters else None)
      | _ \<Rightarrow> None)"

fun lastSnapshot :: "ClusterResponse list option \<Rightarrow> iteration list \<Rightarrow> ClusterResponse list option" where
  "lastSnapshot known [] = known"
| "lastSnapshot known (it # rest) =
     lastSnapshot (case snapshotOf it of None \<Rightarrow> known | Some clusters \<Rightarrow> Some clusters) rest"

definition snapshots :: "iteration list \<Rightarrow> nat" where
  "snapshots passes = length (filter (\<lambda>it. snapshotOf it \<noteq> None) passes)"

section \<open>The interactive demo (main.ts)\<close>

text \<open>
  What a call of the API client settles with: a rejection, a response without
  \<open>data\<close> (the method returns \<open>undefined\<close>), or the \<open>data\<close> of the response.
\<close>

datatype 'a settles = Throws error | Missing | Gives 'a

text \<open>
  A run of the demo: how the promise of \<open>signIn\<close> ends, the two
  environment variables the demo reads (\<open>None\<close> when unset), and what each call
  settles with. Of the data of a response the demo uses the identifier it destructures;
  the entries of the two lists are values of the API, of a type left open.
\<close>

record 'j demoRun =
  authenticated :: settled
  CLUSTER_ID :: "string option"
  UFP_PATH :: "string option"
  createProjectAnswer :: "string settles"
  addCommentAnswer :: "error option"
  uploadFileAnswer :: "string settles"
  submitPrintJobAnswer :: "string settles"
  runningPrintJobsAnswer :: "'j list settles"
  searchProjectsAnswer :: "'j list settles"

datatype apiCall =
    CreateProject string
  | AddCommentToProject string string
  | UploadFileToProject string "string option"
  | SubmitPrintJob string "string option"
  | GetRunningPrintJobs
  | SearchProjects

datatype 'j demoPiece = Plain string | Count nat | PrettyJSON 'j

datatype 'j demoEffect = DemoSignIn | Call apiCall | Say "'j demoPiece list"

text \<open>
  Each stage returns what it did and the error it ended with, if any. Destructuring an
  \<open>undefined\<close> answer, or reading its \<open>length\<close>, throws a \<open>TypeError\<close>.
\<close>

definition uploadAndSubmit ::
  "'j demoRun \<Rightarrow> string \<Rightarrow> 'j demoEffect list \<times> error option" where
  "uploadAndSubmit run library_project_id =
     (let clusterId = CLUSTER_ID run; ufpPath = UFP_PATH run in
      if clusterId \<noteq> Some ''your-cluster-id'' \<and> ufpPath \<noteq> Some ''path/to/your/file.ufp''
      then
        let asked = [Say [Plain ''Uploading file to demo project...''],
                     Call (UploadFileToProject library_project_id ufpPath)]
        in (case uploadFileAnswer run of
              Throws ex \<Rightarrow> (asked, Some ex)
            | Missing \<Rightarrow> (asked, Some TypeError)
            | Gives job_id \<Rightarrow>
                let uploaded = asked @
                      [Say [Plain ''Uploaded file with ID: '', Plain job_id, Plain ''\<newline>''],
                       Say [Plain ''Visit https://digitalfactory.ultimaker.com/app/library/project/'',
                            Plain library_project_id, Plain '' to see your project\<newline>''],
                       Say [Plain ''Submitting a print job''],
                       Call (SubmitPrintJob job_id clusterId)]
                in (case submitPrintJobAnswer run of
                      Throws ex \<Rightarrow> (uploaded, Some ex)
                    | Missing \<Rightarrow> (uploaded, Some TypeError)
                    | Gives job_instance_uuid \<Rightarrow>
                        (uploaded @
                         [Say [Plain ''Submitted print job with ID: '', Plain job_instance_uuid,
                               Plain ''\<newline>'']],
                         None)))
      else
        ([Say [Plain (''(Skipping print job submission. Configure a cluster ID and UFP in ''
                 @ [CHR 0x27] @ ''config.env'' @ [CHR 0x27] @ '' for this part of the demo.)'')]],
         None))"

definition listRunningPrintJobs :: "'j demoRun \<Rightarrow> 'j demoEffect list \<times> error option" where
  "listRunningPrintJobs run =
     (let asked = [Say [Plain ''Getting running print jobs.''], Call GetRunningPrintJobs]
      in case runningPrintJobsAnswer run of
           Throws ex \<Rightarrow> (asked, Some ex)
         | Missing \<Rightarrow> (asked, Some TypeError)
         | Gives [] \<Rightarrow>
             (asked @ [Say [Plain ''No running print jobs found. Sometimes it takes up to 10 second for new print jobs to show up.\<newline>'']],
              None)
         | Gives (first # others) \<Rightarrow>
             (asked @
              [Say [Plain ''Total print jobs retrieved: '', Count (Suc (length others))],
               Say [Plain ''First print job retrieved: '', PrettyJSON first, Plain ''\<newline>'']],
              None))"

definition listProjects :: "'j demoRun \<Rightarrow> 'j demoEffect list \<times> error option" where
  "listProjects run =
     (let asked = [Say [Plain ''Searching projects.''], Call SearchProjects]
      in case searchProjectsAnswer run of
           Throws ex \<Rightarrow> (asked, Some ex)
         | Missing \<Rightarrow> (asked, Some TypeError)
         | Gives [] \<Rightarrow> (asked @ [Say [Plain ''No projects found.\<newline>'']], None)
         | Gives (first # others) \<Rightarrow>
             (asked @
              [Say [Plain ''Total projects retrieved: '', Count (Suc (length others))],
               Say [Plain ''First project retrieved: '', PrettyJSON first, Plain ''\<newline>'']],
              None))"

definition main :: "'j demoRun \<Rightarrow> 'j demoEffect list \<times> settled" where
  "main run =
     (if authenticated run \<noteq> Fulfilled then ([DemoSignIn], authenticated run)
      else
        let started = [DemoSignIn, Say [Plain ''Sign in completed.\<newline>''],
                       Say [Plain ''Creating demo project...''],
                       Call (CreateProject ''Demo project'')]
        in case createProjectAnswer run of
             Throws ex \<Rightarrow> (started, RejectedWith ex)
           | Missing \<Rightarrow> (started, RejectedWith TypeError)
           | Gives library_project_id \<Rightarrow>
               let created = started @
                     [Say [Plain ''Created project with ID: '', Plain library_project_id,
                           Plain ''\<newline>''],
                      Say [Plain ''Adding comment to demo project...''],
                      Call (AddCommentToProject library_project_id ''Demo comment'')]
               in (case addCommentAnswer run of
                     Some ex \<Rightarrow> (created, RejectedWith ex)
                   | None \<Rightarrow>
                       let commented = created @ [Say [Plain ''Comment added.\<newline>'']] in
                       (case uploadAndSubmit run library_project_id of
                          (printed, Some ex) \<Rightarrow> (commented @ printed, RejectedWith ex)
                        | (printed, None) \<Rightarrow>
                            (case listRunningPrintJobs run of
                               (jobs, Some ex) \<Rightarrow> (commented @ printed @ jobs, RejectedWith ex)
                             | (jobs, None) \<Rightarrow>
                                 (case listProjects run of
                                    (projects, Some ex) \<Rightarrow>
                                      (commented @ printed @ jobs @ projects, RejectedWith ex)
                                  | (projects, None) \<Rightarrow>
                                      (commented @ printed @ jobs @ projects, Fulfilled))))))"

text \<open>The endpoints a trace invoked, in order.\<close>

datatype endpoint =
    CreateProjectEndpoint
  | AddCommentEndpoint
  | UploadFileEndpoint
  | SubmitPrintJobEndpoint
  | ListRunningJobsEndpoint
  | SearchProjectsEndpoint

fun endpointOf :: "apiCall \<Rightarrow> endpoint" where
  "endpointOf (CreateProject name) = CreateProjectEndpoint"
| "endpointOf (AddCommentToProject projectId comment) = AddCommentEndpoint"
| "endpointOf (UploadFileToProject libraryProjectId filePath) = UploadFileEndpoint"
| "endpointOf (SubmitPrintJob jobId clusterId) = SubmitPrintJobEndpoint"
| "endpointOf GetRunningPrintJobs = ListRunningJobsEndpoint"
| "endpointOf SearchProjects = SearchProjectsEndpoint"

fun endpoints :: "'j demoEffect list \<Rightarrow> endpoint list" where
  "endpoints [] = []"
| "endpoints (Call c # es) = endpointOf c # endpoints es"
| "endpoints (e # es) = endpoints es"

definition configured :: "'j demoRun \<Rightarrow> bool" where
  "configured run =
     (CLUSTER_ID run \<noteq> Some ''your-cluster-id'' \<and> UFP_PATH run \<noteq> Some ''path/to/your/file.ufp'')"

definition allAnswered :: "'j demoRun \<Rightarrow> bool" where
  "allAnswered run =
     (authenticated run = Fulfilled
      \<and> (case createProjectAnswer run of Gives v \<Rightarrow> True | _ \<Rightarrow> False)
      \<and> addCommentAnswer run = None
      \<and> (\<not> configured run \<or>
           (case uploadFileAnswer run of Gives v \<Rightarrow> True | _ \<Rightarrow> False)
           \<and> (case submitPrintJobAnswer run of Gives v \<Rightarrow> True | _ \<Rightarrow> False))
      \<and> (case runningPrintJobsAnswer run of Gives v \<Rightarrow> True | _ \<Rightarrow> False)
      \<and> (case searchProjectsAnswer run of Gives v \<Rightarrow> True | _ \<Rightarrow> False))"

definition expectedEndpoints :: "'j demoRun \<Rightarrow> endpoint list" where
  "expectedEndpoints run =
     [CreateProjectEndpoint, AddCommentEndpoint]
     @ (if configured run then [UploadFileEndpoint, SubmitPrintJobEndpoint] else [])
     @ [ListRunningJobsEndpoint, SearchProjectsEndpoint]"

fun answersPrinted :: "'j demoEffect list \<Rightarrow> bool" where
  "answersPrinted [] = True"
| "answersPrinted (Call c # Say line # es) = answersPrinted es"
| "answersPrinted (Call c # es) = False"
| "answersPrinted (e # es) = answersPrinted es"

text \<open>
  The error a call ends with, if it does: the rejection of the call, or the
  \<open>TypeError\<close> of using an answer without data. A sequence of calls made one after
  the other stops at the first that fails.
\<close>

definition failed :: "'a settles \<Rightarrow> error option" where
  "failed answer =
     (case answer of Throws ex \<Rightarrow> Some ex | Missing \<Rightarrow> Some TypeError | Gives v \<Rightarrow> None)"

fun failure :: "'j demoRun \<Rightarrow> endpoint \<Rightarrow> error option" where
  "failure run CreateProjectEndpoint = failed (createProjectAnswer run)"
| "failure run AddCommentEndpoint = addCommentAnswer run"
| "failure run UploadFileEndpoint = failed (uploadFileAnswer run)"
| "failure run SubmitPrintJobEndpoint = failed (submitPrintJobAnswer run)"
| "failure run ListRunningJobsEndpoint = failed (runningPrintJobsAnswer run)"
| "failure run SearchProjectsEndpoint = failed (searchProjectsAnswer run)"

fun firstFailure :: "('a \<Rightarrow> error option) \<Rightarrow> 'a list \<Rightarrow> error option" where
  "firstFailure fails [] = None"
| "firstFailure fails (x # xs) =
     (case fails x of None \<Rightarrow> firstFailure fails xs | Some ex \<Rightarrow> Some ex)"

fun upToFirstFailure :: "('a \<Rightarrow> error option) \<Rightarrow> 'a list \<Rightarrow> 'a list" where
  "upToFirstFailure fails [] = []"
| "upToFirstFailure fails (x # xs) =
     (case fails x of None \<Rightarrow> x # upToFirstFailure fails xs | Some ex \<Rightarrow> [x])"

section \<open>The previous snapshot (monitor-printers.ts)\<close>

text \<open>
  Of the file system, what is found at a path: nothing, something that is not a
  directory, or a directory with its entries in the order \<open>readdir\<close> lists them. An
  entry is a file with its text, or a subdirectory.
\<close>

datatype entry = File string | Directory

datatype node = RegularFile | Dir "(string \<times> entry) list"

type_synonym fileSystem = "string \<Rightarrow> node option"

text \<open>
  Two functions of the platform are parameters: \<open>String.prototype.localeCompare\<close>,
  whose order is that of the locale's collation, and \<open>JSON.parse\<close>, which returns a
  value or throws a \<open>SyntaxError\<close>.
\<close>

record 'j runtime =
  localeCompare :: "string \<Rightarrow> string \<Rightarrow> int"
  JSON_parse :: "string \<Rightarrow> error + 'j"

datatype 'j returned = Null | Undefined | Parsed 'j

definition endsWith :: "string \<Rightarrow> string \<Rightarrow> bool" where
  "endsWith s ending =
     (length ending \<le> length s \<and> drop (length s - length ending) s = ending)"

text \<open>
  \<open>Array.prototype.sort\<close> with a comparison function is stable: \<open>a\<close> stays before
  \<open>b\<close> unless the function says otherwise. Insertion from the right end gives that
  order for every consistent comparison function; for an inconsistent one the order of
  the source is left to the implementation, and this is one such order.
\<close>

fun insertSorted :: "('a \<Rightarrow> 'a \<Rightarrow> int) \<Rightarrow> 'a \<Rightarrow> 'a list \<Rightarrow> 'a list" where
  "insertSorted compareFn x [] = [x]"
| "insertSorted compareFn x (y # ys) =
     (if compareFn x y \<le> 0 then x # y # ys else y # insertSorted compareFn x ys)"

definition arraySort :: "('a \<Rightarrow> 'a \<Rightarrow> int) \<Rightarrow> 'a list \<Rightarrow> 'a list" where
  "arraySort compareFn xs = foldr (insertSorted compareFn) xs []"

definition jsonFiles :: "(string \<times> entry) list \<Rightarrow> string list" where
  "jsonFiles entries = filter (\<lambda>file. endsWith file ''.json'') (map fst entries)"

text \<open>
  The call takes the file system and returns it with the result the promise settles
  with. \<open>mkdirFailure\<close> is the error \<open>mkdir\<close> is rejected with, if it is. A name
  that ends in \<open>.json\<close> is not the empty string, so \<open>lastFile\<close> is falsy only when
  it is \<open>undefined\<close>.
\<close>

definition getPreviousClusterStatus ::
  "'j runtime \<Rightarrow> error option \<Rightarrow> fileSystem \<Rightarrow> string
     \<Rightarrow> fileSystem \<times> (error + 'j returned)" where
  "getPreviousClusterStatus rt mkdirFailure fs dir =
     (case fs dir of
        None \<Rightarrow>
          (case mkdirFailure of
             Some ex \<Rightarrow> (fs, Inl ex)
           | None \<Rightarrow> (fs(dir \<mapsto> Dir []), Inr Null))
      | Some RegularFile \<Rightarrow> (fs, Inl (IOError ''ENOTDIR''))
      | Some (Dir entries) \<Rightarrow>
          (case arraySort (\<lambda>a b. localeCompare rt b a) (jsonFiles entries) of
             [] \<Rightarrow> (fs, Inr Undefined)
           | lastFile # others \<Rightarrow>
               (case map_of entries lastFile of
                  None \<Rightarrow> (fs, Inl (IOError ''ENOENT''))
                | Some Directory \<Rightarrow> (fs, Inl (IOError ''EISDIR''))
                | Some (File text) \<Rightarrow>
                    (case JSON_parse rt text of
                       Inl ex \<Rightarrow> (fs, Inl ex)
                     | Inr v \<Rightarrow> (fs, Inr (Parsed v))))))"

text \<open>
  A comparison function orders a set of names when any two of them are comparable and
  the comparison is transitive.
\<close>

definition ordersNames :: "(string \<Rightarrow> string \<Rightarrow> int) \<Rightarrow> string set \<Rightarrow> bool" where
  "ordersNames compareFn names =
     ((\<forall>a\<in>names. \<forall>b\<in>names. compareFn a b \<le> 0 \<or> compareFn b a \<le> 0)
      \<and> (\<forall>a\<in>names. \<forall>b\<in>names. \<forall>c\<in>names.
            compareFn a b \<le> 0 \<and> compareFn b c \<le> 0 \<longrightarrow> compareFn a c \<le> 0))"

text \<open>
  It orders them as the code units do when it agrees with the lexicographic order of
  the strings.
\<close>

definition codeUnitOrder :: "(string \<Rightarrow> string \<Rightarrow> int) \<Rightarrow> string set \<Rightarrow> bool" where
  "codeUnitOrder compareFn names = (\<forall>a\<in>names. \<forall>b\<in>names. (compareFn a b \<le> 0) = (a \<le> b))"

section \<open>Example inputs\<close>

text \<open>
  Concrete runs, on which the properties below are exercised.
\<close>

definition placeholderRun :: "string demoRun" where
  "placeholderRun = \<lparr> authenticated = Fulfilled,
     CLUSTER_ID = Some ''your-cluster-id'', UFP_PATH = Some ''path/to/your/file.ufp'',
     createProjectAnswer = Gives ''p1'', addCommentAnswer = None,
     uploadFileAnswer = Gives ''j1'', submitPrintJobAnswer = Gives ''u1'',
     runningPrintJobsAnswer = Gives [], searchProjectsAnswer = Gives [''{}''] \<rparr>"

definition configuredRun :: "string demoRun" where
  "configuredRun = placeholderRun \<lparr> CLUSTER_ID := Some ''c1'', UFP_PATH := Some ''part.ufp'' \<rparr>"

definition failingRun :: "string demoRun" where
  "failingRun = configuredRun \<lparr> uploadFileAnswer := Throws (IOError ''ENOENT'') \<rparr>"

definition defaultOptions :: MonitorClustersOptions where
  "defaultOptions = \<lparr> comparisonFile = None, statusDir = None, waitMS = None \<rparr>"

definition printerA :: ClusterResponse where
  "printerA = \<lparr> cluster_id = ''a'', is_online = True \<rparr>"

definition printerB :: ClusterResponse where
  "printerB = \<lparr> cluster_id = ''b'', is_online = False \<rparr>"

definition firstPass :: iteration where
  "firstPass = \<lparr> fetched = Clusters [printerA, printerB], now = ''2021-06-01T10:00:00.000Z'',
     writeFailure = None, sigint = NoInterrupt \<rparr>"

definition lastPass :: iteration where
  "lastPass = \<lparr> fetched = Clusters [printerB], now = ''2021-06-01T10:01:00.000Z'',
     writeFailure = None, sigint = WhileWaiting \<rparr>"

definition freshRun :: monitorRun where
  "freshRun = \<lparr> signedIn = Fulfilled, previousStatus = Inr None, sigintBeforeLoop = False,
     iterations = [firstPass \<lparr> sigint := WhileWaiting \<rparr>] \<rparr>"

definition twoPassRun :: monitorRun where
  "twoPassRun = \<lparr> signedIn = Fulfilled, previousStatus = Inr None, sigintBeforeLoop = False,
     iterations = [firstPass, lastPass] \<rparr>"

definition exampleConfig :: config where
  "exampleConfig = \<lparr> CLIENT_ID = ''demo-client'', SCOPES = ''um.api'' \<rparr>"

definition exampleToken :: TokenResponse where
  "exampleToken = \<lparr> access_token = ''at'', expires_in = 600, refresh_token = ''rt'',
     scope = ''um.api'', token_type = ''Bearer'' \<rparr>"

definition exampleBytes16 :: bytes where
  "exampleBytes16 = [58, 145, 7, 196, 94, 34, 240, 24, 107, 211, 73, 142, 117, 12, 167, 225]"

definition exampleBytes32 :: bytes where
  "exampleBytes32 = [11, 48, 85, 122, 159, 196, 233, 14, 51, 88, 125, 162, 199, 236, 17, 54,
     91, 128, 165, 202, 239, 20, 57, 94, 131, 168, 205, 242, 23, 60, 97, 134]"

text \<open>
  A stand-in for the digest: the properties below hold for every function in its place.
\<close>

definition exampleDigest :: "string \<Rightarrow> bytes" where
  "exampleDigest v = map (\<lambda>c. of_nat (of_char c)) (take 3 v)"

definition pendingDemo :: DigitalFactoryDemo where
  "pendingDemo = fst (signIn exampleConfig exampleDigest exampleBytes16 exampleBytes32 newDigitalFactoryDemo)"

definition goodCallback :: IncomingMessage where
  "goodCallback = ParsedUrl [(''code'', ''abc''), (''state'', ''OpEHxF4i8Bhr00mOdQyn4Q=='')]"

text \<open>
  Two comparison functions: the order of the code units, and a stand-in for a collation
  that, as the locale's does, puts a lower-case letter before the upper-case letters
  that follow it in the alphabet. The example parser agrees with \<open>JSON.parse\<close> on the
  two texts the examples hold, the empty array and the empty text.
\<close>

definition compareCodeUnits :: "string \<Rightarrow> string \<Rightarrow> int" where
  "compareCodeUnits a b = (if a < b then - 1 else if a = b then 0 else 1)"

definition lowerCase :: "char \<Rightarrow> char" where
  "lowerCase c =
     (case map_of (zip ''ABCDEFGHIJKLMNOPQRSTUVWXYZ'' ''abcdefghijklmnopqrstuvwxyz'') c of
        None \<Rightarrow> c | Some lower \<Rightarrow> lower)"

definition compareIgnoringCase :: "string \<Rightarrow> string \<Rightarrow> int" where
  "compareIgnoringCase a b = compareCodeUnits (map lowerCase a) (map lowerCase b)"

definition parseEmptyArray :: "string \<Rightarrow> error + ClusterResponse list" where
  "parseEmptyArray text = (if text = ''[]'' then Inr [] else Inl SyntaxError)"

definition codeUnitRuntime :: "ClusterResponse list runtime" where
  "codeUnitRuntime = \<lparr> localeCompare = compareCodeUnits, JSON_parse = parseEmptyArray \<rparr>"

definition collatingRuntime :: "ClusterResponse list runtime" where
  "collatingRuntime = \<lparr> localeCompare = compareIgnoringCase, JSON_parse = parseEmptyArray \<rparr>"

definition logsAt :: "(string \<times> entry) list \<Rightarrow> fileSystem" where
  "logsAt entries = Map.empty(''logs'' \<mapsto> Dir entries)"

definition twoSnapshots :: "(string \<times> entry) list" where
  "twoSnapshots =
     [(''2021-06-01T10-01-00.000Z-clusters.json'', File ''[]''),
      (''cluster-monitoring.csv'', File []),
      (''2021-06-01T10-00-00.000Z-clusters.json'', File [])]"

section \<open>Properties of the set model\<close>

lemma set_foldl_setAdd: "set (foldl setAdd s xs) = set s \<union> set xs"
  by (induction xs arbitrary: s) (auto simp: setAdd_def)

lemma distinct_foldl_setAdd: "distinct s \<Longrightarrow> distinct (foldl setAdd s xs)"
  by (induction xs arbitrary: s) (auto simp: setAdd_def)

lemma set_newSet: "set (newSet xs) = set xs"
  by (simp add: newSet_def set_foldl_setAdd)

lemma distinct_newSet: "distinct (newSet xs)"
  by (simp add: newSet_def distinct_foldl_setAdd)

lemma length_newSet: "length (newSet xs) = card (set xs)"
  using distinct_card [OF distinct_newSet, of xs] by (simp add: set_newSet)

lemma length_newSet_le: "length (newSet xs) \<le> length xs"
  by (simp add: length_newSet card_length)

lemma set_getOnlineClusterIds: "set (getOnlineClusterIds cs) = onlineIds cs"
  by (auto simp: getOnlineClusterIds_def set_newSet onlineIds_def)

lemma distinct_getOnlineClusterIds: "distinct (getOnlineClusterIds cs)"
  by (simp add: getOnlineClusterIds_def distinct_newSet)

section \<open>Properties of the comparison\<close>

text \<open>
  C1. For every pair of cluster lists and every valid date, \<open>compareResults\<close> returns
  a comparison whose \<open>appeared\<close> field holds exactly the identifiers online in the
  current list and not online in the previous one, and whose \<open>gone\<close> field holds
  exactly the identifiers online in the previous list and not online in the current
  one; neither field repeats an identifier.
\<close>

theorem compareResults_set_difference:
  "\<exists>r. compareResults previous current (ValidDate stamp) = Inr r
     \<and> set (appeared r) = onlineIds current - onlineIds previous
     \<and> set (gone r) = onlineIds previous - onlineIds current
     \<and> distinct (appeared r) \<and> distinct (gone r)"
  by (auto simp: compareResults_def Let_def setHas_def set_getOnlineClusterIds
      distinct_getOnlineClusterIds)

text \<open>
  C8. For every pair of cluster lists \<open>a\<close> and \<open>b\<close>, the \<open>appeared\<close> list of
  \<open>compareResults a b t\<close> is the \<open>gone\<close> list of \<open>compareResults b a t\<close>, as
  lists (same elements, same order); and a list compared with itself has empty
  \<open>appeared\<close> and \<open>gone\<close>.
\<close>

theorem compareResults_appeared_gone_swap:
  "\<exists>r1 r2 r3. compareResults a b (ValidDate stamp) = Inr r1
     \<and> compareResults b a (ValidDate stamp) = Inr r2
     \<and> appeared r1 = gone r2
     \<and> compareResults a a (ValidDate stamp) = Inr r3
     \<and> appeared r3 = [] \<and> gone r3 = []"
  by (simp add: compareResults_def Let_def setHas_def)

text \<open>
  C9. For every current list, \<open>onlineCount\<close> is the number of distinct
  \<open>cluster_id\<close> values among the entries that are online (which can be less than the
  number of online entries), \<open>offlineCount\<close> is the length of the current list minus
  that number, and the two add up to the length of the list.
\<close>

theorem compareResults_counts:
  "\<exists>r. compareResults previous current (ValidDate stamp) = Inr r
     \<and> onlineCount r = int (card (onlineIds current))
     \<and> offlineCount r = int (length current) - int (card (onlineIds current))
     \<and> onlineCount r + offlineCount r = int (length current)
     \<and> 0 \<le> offlineCount r"
proof -
  have len: "length (getOnlineClusterIds current) = card (onlineIds current)"
    using distinct_card [OF distinct_getOnlineClusterIds, of current]
    by (simp add: set_getOnlineClusterIds)
  have "length (getOnlineClusterIds current) \<le> length (map cluster_id (filter is_online current))"
    unfolding getOnlineClusterIds_def by (rule length_newSet_le)
  also have "\<dots> \<le> length current"
    by simp
  finally have le: "card (onlineIds current) \<le> length current"
    by (simp add: len)
  show ?thesis
    using le by (simp add: compareResults_def Let_def setSize_def len)
qed

section \<open>Properties of the sign-in flow\<close>

lemma tokenRequests_append: "tokenRequests (xs @ ys) = tokenRequests xs @ tokenRequests ys"
  by (induction xs rule: tokenRequests.induct) simp_all

lemma showNat_port: "showNat CALLBACK_SERVER_PORT = ''32118''"
  by (simp add: CALLBACK_SERVER_PORT_def showNat.simps digit_def)

lemma pendingDemo_eq: "pendingDemo = \<lparr>
     this_callbackServer = Some Server, this_state = Some ''OpEHxF4i8Bhr00mOdQyn4Q=='',
     this_pkceVerifier = Some ''CzBVep/E6Q4zWH2ix+wRNluApcrvFDleg6jN8hc8YYY='',
     this_tokenPair = None, this_token_url = Some ''https://account.ultimaker.com/token'',
     this_authorizationUrl = ''https://account.ultimaker.com/authorize'',
     this_redirectUri = Some ''http://localhost:32118/callback'',
     this_signInCompleteResolve = True \<rparr>"
  by (simp add: pendingDemo_def signIn_def newDigitalFactoryDemo_def generateState_def
      generatePKCEVerifier_def exampleBytes16_def exampleBytes32_def showNat_port base64Char_def base64Alphabet_def OAUTH_SERVER_URL_def Let_def)

text \<open>
  C2 as stated fails for a request whose target the \<open>URL\<close> constructor refuses
  while a sign-in is pending: the request fails the checks, and the handler does not
  return but throws the \<open>TypeError\<close> of the constructor, which stands before the
  checks of \<open>code\<close> and \<open>state\<close>. The object is left as it was.
\<close>

theorem handleRequest_throws_on_invalid_url:
  "\<not> checksPass pendingDemo InvalidUrl
   \<and> handleRequest exampleConfig pendingDemo InvalidUrl (Body (Some exampleToken))
       = (pendingDemo, Inl TypeError, [])"
  by (simp add: checksPass_def handleRequest_def pendingDemo_eq truthy_def)

text \<open>
  C2, amended. For every request to the callback listener, the handler sends the token
  request or changes the stored token pair only if the request's URL has a non-empty
  \<open>code\<close> parameter and a \<open>state\<close> parameter equal to the state stored at
  sign-in. For a request that fails these checks the object is left as it was (callback
  server, state, verifier and token pair included) and nothing is sent or printed; the
  handler returns, except for a request target that the \<open>URL\<close> constructor refuses
  while a sign-in is pending, where it throws the \<open>TypeError\<close> of the constructor.
\<close>

theorem handleRequest_guarded:
  "handleRequest cfg d req reply = (d', outcome, effs) \<Longrightarrow>
     (tokenRequests effs \<noteq> [] \<or> this_tokenPair d' \<noteq> this_tokenPair d \<longrightarrow> checksPass d req)
     \<and> (\<not> checksPass d req \<longrightarrow>
          d' = d \<and> effs = []
          \<and> outcome = (if req = InvalidUrl \<and> truthy (this_pkceVerifier d)
                         then Inl TypeError else Inr ()))"
  by (auto simp: handleRequest_def checksPass_def requestAccessToken_def Let_def
      split: IncomingMessage.splits if_splits option.splits tokenReply.splits prod.splits sum.splits)

text \<open>
  A forged \<open>state\<close> leaves the pending sign-in untouched; the genuine callback passes
  the checks and sends a token request.
\<close>

theorem handleRequest_guarded_witness:
  "handleRequest exampleConfig pendingDemo
      (ParsedUrl [(''code'', ''abc''), (''state'', ''forged'')]) (Body (Some exampleToken))
     = (pendingDemo, Inr (), [])
   \<and> \<not> checksPass pendingDemo (ParsedUrl [(''code'', ''abc''), (''state'', ''forged'')])
   \<and> checksPass pendingDemo goodCallback
   \<and> tokenRequests (snd (snd (handleRequest exampleConfig pendingDemo goodCallback
        (Body (Some exampleToken))))) \<noteq> []"
proof -
  let ?bad = "ParsedUrl [(''code'', ''abc''), (''state'', ''forged'')]"
  have run: "handleRequest exampleConfig pendingDemo ?bad (Body (Some exampleToken))
      = (pendingDemo, Inr (), [])"
    by (simp add: handleRequest_def pendingDemo_eq searchParamsGet_def truthy_def)
  have bad: "\<not> checksPass pendingDemo ?bad"
    by (simp add: checksPass_def pendingDemo_eq searchParamsGet_def truthy_def)
  have sent: "tokenRequests (snd (snd (handleRequest exampleConfig pendingDemo goodCallback
        (Body (Some exampleToken))))) \<noteq> []"
    by (simp add: handleRequest_def pendingDemo_eq goodCallback_def searchParamsGet_def
        truthy_def requestAccessToken_def Let_def)
  obtain d' outcome effs where
    good: "handleRequest exampleConfig pendingDemo goodCallback (Body (Some exampleToken))
      = (d', outcome, effs)"
    by (cases "handleRequest exampleConfig pendingDemo goodCallback (Body (Some exampleToken))")
  from sent good have "tokenRequests effs \<noteq> []" by simp
  with handleRequest_guarded [OF good] have "checksPass pendingDemo goodCallback" by simp
  with run bad sent show ?thesis by simp
qed

lemma handleRequest_idle:
  "this_pkceVerifier d = None \<Longrightarrow> handleRequest cfg d req reply = (d, Inr (), [])"
  by (simp add: handleRequest_def truthy_def split: IncomingMessage.splits)

lemma handleRequests_idle:
  "this_pkceVerifier d = None \<Longrightarrow> handleRequests cfg d later = (d, [])"
  by (induction later) (auto simp: handleRequest_idle)

lemma handleRequest_begin_complete:
  "handleRequest cfg d req reply =
     (case beginRequest cfg d req of
        (Some outcome, sent) \<Rightarrow> (d, outcome, sent)
      | (None, sent) \<Rightarrow>
          (case completeRequest d reply of
             (d', outcome, effs) \<Rightarrow> (d', outcome, sent @ effs)))"
  by (auto simp: handleRequest_def beginRequest_def completeRequest_def
      requestAccessToken_def Let_def
      split: IncomingMessage.splits option.splits tokenReply.splits)










lemma verifiersSent_append: "verifiersSent (xs @ ys) = verifiersSent xs @ verifiersSent ys"
  by (simp add: verifiersSent_def tokenRequests_append)

lemma handleRequest_verifier:
  assumes "handleRequest cfg d req reply = (d', outcome, effs)"
    and "this_pkceVerifier d = Some v"
  shows "(this_pkceVerifier d' = Some v \<or> this_pkceVerifier d' = None)
     \<and> set (verifiersSent effs) \<subseteq> {Some v}"
  using assms
  by (auto simp: handleRequest_def requestAccessToken_def tokenRequestBody_def Let_def
      verifiersSent_def tokenRequests_append searchParamsGet_def stringOrNull_def
      split: IncomingMessage.splits if_splits option.splits tokenReply.splits)

lemma handleRequests_verifier:
  "handleRequests cfg d requests = (d', effs) \<Longrightarrow> this_pkceVerifier d = Some v \<Longrightarrow>
     set (verifiersSent effs) \<subseteq> {Some v}"
proof (induction requests arbitrary: d d' effs)
  case Nil
  then show ?case by (simp add: verifiersSent_def)
next
  case (Cons a requests)
  obtain req reply where a: "a = (req, reply)" by (cases a)
  obtain d1 outcome effs1 where step: "handleRequest cfg d req reply = (d1, outcome, effs1)"
    by (cases "handleRequest cfg d req reply")
  obtain d2 effs2 where rest: "handleRequests cfg d1 requests = (d2, effs2)"
    by (cases "handleRequests cfg d1 requests")
  from Cons.prems(1) a step rest have effs: "effs = effs1 @ effs2" by simp
  from handleRequest_verifier [OF step Cons.prems(2)]
  have keep: "this_pkceVerifier d1 = Some v \<or> this_pkceVerifier d1 = None"
    and first: "set (verifiersSent effs1) \<subseteq> {Some v}" by simp_all
  from keep have "set (verifiersSent effs2) \<subseteq> {Some v}"
  proof
    assume "this_pkceVerifier d1 = Some v"
    with Cons.IH [OF rest] show ?thesis .
  next
    assume "this_pkceVerifier d1 = None"
    from handleRequests_idle [OF this, of cfg requests] rest have "effs2 = []" by simp
    then show ?thesis by (simp add: verifiersSent_def)
  qed
  with first effs show ?case by (simp add: verifiersSent_append)
qed

text \<open>
  C4. For every call of \<open>signIn\<close>, the \<open>code_challenge\<close> of the query in the
  printed authorization URL is the base64 encoding of the digest of the verifier
  generated by that call, and every token request sent by the handler while that
  sign-in is pending carries this verifier as its \<open>code_verifier\<close>. The digest
  function (SHA-512 in the source) is a parameter.
\<close>

theorem pkce_verifier_bound:
  "signIn cfg sha512 randomBytes16 randomBytes32 d0 = (d1, shown) \<Longrightarrow>
   handleRequests cfg d1 requests = (d2, effs) \<Longrightarrow>
     (\<exists>query. Print [Lit ''    '', Lit (this_authorizationUrl d0), Lit ''?'', Query query]
           \<in> set shown
        \<and> searchParamsGet query ''code_challenge''
            = Some (base64 (sha512 (generatePKCEVerifier randomBytes32))))
     \<and> this_pkceVerifier d1 = Some (generatePKCEVerifier randomBytes32)
     \<and> set (verifiersSent effs) \<subseteq> {Some (generatePKCEVerifier randomBytes32)}"
proof -
  assume start: "signIn cfg sha512 randomBytes16 randomBytes32 d0 = (d1, shown)"
    and run: "handleRequests cfg d1 requests = (d2, effs)"
  from start have ver: "this_pkceVerifier d1 = Some (generatePKCEVerifier randomBytes32)"
    by (auto simp: signIn_def Let_def)
  from start have "Print [Lit ''    '', Lit (this_authorizationUrl d0), Lit ''?'',
      Query (signInQuery cfg sha512 (''http://localhost:'' @ showNat CALLBACK_SERVER_PORT @ ''/callback'')
        (generateState randomBytes16) (generatePKCEVerifier randomBytes32))] \<in> set shown"
    by (auto simp: signIn_def Let_def)
  moreover have "searchParamsGet (signInQuery cfg sha512 (''http://localhost:'' @ showNat CALLBACK_SERVER_PORT @ ''/callback'')
        (generateState randomBytes16) (generatePKCEVerifier randomBytes32)) ''code_challenge''
      = Some (base64 (sha512 (generatePKCEVerifier randomBytes32)))"
    by (simp add: signInQuery_def searchParamsGet_def generatePKCEChallenge_def)
  ultimately show ?thesis
    using ver handleRequests_verifier [OF run ver] by blast
qed

text \<open>
  A sign-in, a request with an unusable target, then the genuine callback: one token
  request, carrying the verifier of the sign-in.
\<close>

theorem pkce_verifier_bound_witness:
  "\<exists>d1 shown d2 effs.
     signIn exampleConfig exampleDigest exampleBytes16 exampleBytes32 newDigitalFactoryDemo
       = (d1, shown)
     \<and> handleRequests exampleConfig d1
          [(InvalidUrl, Body None), (goodCallback, Body (Some exampleToken))] = (d2, effs)
     \<and> this_pkceVerifier d1 = Some ''CzBVep/E6Q4zWH2ix+wRNluApcrvFDleg6jN8hc8YYY=''
     \<and> verifiersSent effs = [Some ''CzBVep/E6Q4zWH2ix+wRNluApcrvFDleg6jN8hc8YYY='']
     \<and> set (verifiersSent effs) \<subseteq> {Some (generatePKCEVerifier exampleBytes32)}"
proof -
  obtain d1 shown where
    start: "signIn exampleConfig exampleDigest exampleBytes16 exampleBytes32 newDigitalFactoryDemo
      = (d1, shown)"
    by (cases "signIn exampleConfig exampleDigest exampleBytes16 exampleBytes32
        newDigitalFactoryDemo")
  then have d1: "d1 = pendingDemo" by (simp add: pendingDemo_def)
  obtain d2 effs where
    run: "handleRequests exampleConfig d1
          [(InvalidUrl, Body None), (goodCallback, Body (Some exampleToken))] = (d2, effs)"
    by (cases "handleRequests exampleConfig d1
          [(InvalidUrl, Body None), (goodCallback, Body (Some exampleToken))]")
  from run have sent: "verifiersSent effs = [Some ''CzBVep/E6Q4zWH2ix+wRNluApcrvFDleg6jN8hc8YYY='']"
    unfolding d1
    by (auto simp: handleRequest_def pendingDemo_eq goodCallback_def searchParamsGet_def
        truthy_def requestAccessToken_def tokenRequestBody_def stringOrNull_def Let_def
        verifiersSent_def)
  from pkce_verifier_bound [OF start run] start run sent d1 show ?thesis
    by (simp add: pendingDemo_eq)
qed

section \<open>Properties of the cluster monitor\<close>

lemma compareResults_valid:
  "\<exists>comparison. compareResults earlier clusters (ValidDate stamp) = Inr comparison"
  by (simp add: compareResults_def Let_def)

lemma snapshotsWritten_append:
  "snapshotsWritten (xs @ ys) = snapshotsWritten xs + snapshotsWritten ys"
  by (induction xs rule: snapshotsWritten.induct) simp_all

lemma csvRows_append: "csvRows (xs @ ys) = csvRows xs + csvRows ys"
  by (induction xs rule: csvRows.induct) simp_all

lemma signIns_append: "signIns (xs @ ys) = signIns xs + signIns ys"
  by (induction xs rule: signIns.induct) simp_all

lemma fetches_append: "fetches (xs @ ys) = fetches xs + fetches ys"
  by (induction xs rule: fetches.induct) simp_all

lemma awaitAsync_counts:
  "snapshotsWritten (awaitAsync ms i) = 0" "csvRows (awaitAsync ms i) = 0"
  "signIns (awaitAsync ms i) = 0" "fetches (awaitAsync ms i) = 0"
  by (simp_all add: awaitAsync_def)

lemma monitorIteration_counts:
  assumes "monitorIteration options previous it = (previous', effs, aborted)"
  shows "fetches effs = 1" and "signIns effs = 0" and "aborted = (sigint it \<noteq> NoInterrupt)"
proof -
  obtain comparison where
    "compareResults (the previous) (case fetched it of Clusters cs \<Rightarrow> cs | _ \<Rightarrow> [])
       (ValidDate (now it)) = Inr comparison"
    using compareResults_valid by blast
  with assms show "fetches effs = 1" and "signIns effs = 0"
    and "aborted = (sigint it \<noteq> NoInterrupt)"
    by (auto simp: monitorIteration_def Let_def caught_def fetches_append signIns_append
        awaitAsync_counts split: fetchResult.splits option.splits sum.splits)
qed

lemma monitorLoop_until_sigint:
  assumes "\<forall>p\<in>set passes. sigint p = NoInterrupt" and "sigint final \<noteq> NoInterrupt"
    and "monitorLoop options previous (passes @ final # unseen) = (effs, ended)"
  shows "ended \<and> fetches effs = Suc (length passes) \<and> signIns effs = 0"
  using assms
proof (induction passes arbitrary: previous effs ended)
  case Nil
  obtain previous' effs' aborted where
    step: "monitorIteration options previous final = (previous', effs', aborted)"
    by (cases "monitorIteration options previous final")
  from monitorIteration_counts [OF step] Nil.prems step show ?case by simp
next
  case (Cons p passes)
  obtain previous' effs1 aborted where
    step: "monitorIteration options previous p = (previous', effs1, aborted)"
    by (cases "monitorIteration options previous p")
  obtain effs2 ended2 where
    rest: "monitorLoop options previous' (passes @ final # unseen) = (effs2, ended2)"
    by (cases "monitorLoop options previous' (passes @ final # unseen)")
  from Cons.prems(1) monitorIteration_counts [OF step]
  have one: "fetches effs1 = 1" "signIns effs1 = 0" "\<not> aborted" by simp_all
  from Cons.prems(3) step rest one have effs: "effs = effs1 @ effs2" "ended = ended2"
    by simp_all
  from Cons.prems(1) have "\<forall>p\<in>set passes. sigint p = NoInterrupt" by simp
  from Cons.IH [OF this Cons.prems(2) rest] one effs show ?case
    by (simp add: fetches_append signIns_append)
qed

lemma monitorLoop_running:
  assumes "\<forall>p\<in>set passes. sigint p = NoInterrupt"
    and "monitorLoop options previous passes = (effs, ended)"
  shows "\<not> ended \<and> fetches effs = length passes"
  using assms
proof (induction passes arbitrary: previous effs ended)
  case Nil
  then show ?case by simp
next
  case (Cons p passes)
  obtain previous' effs1 aborted where
    step: "monitorIteration options previous p = (previous', effs1, aborted)"
    by (cases "monitorIteration options previous p")
  obtain effs2 ended2 where
    rest: "monitorLoop options previous' passes = (effs2, ended2)"
    by (cases "monitorLoop options previous' passes")
  from Cons.prems(1) monitorIteration_counts [OF step]
  have one: "fetches effs1 = 1" "\<not> aborted" by simp_all
  from Cons.prems(2) step rest one have effs: "effs = effs1 @ effs2" "ended = ended2"
    by simp_all
  from Cons.prems(1) have "\<forall>p\<in>set passes. sigint p = NoInterrupt" by simp
  from Cons.IH [OF this rest] one effs show ?case
    by (simp add: fetches_append)
qed

text \<open>
  C5. When \<open>getClusters\<close> is rejected inside the loop, the pass catches and logs the
  error and waits; \<open>previous\<close> keeps its value and the pass writes neither a snapshot
  nor a CSV row. Unless SIGINT arrived during the pass, the loop goes on with the next
  pass.
\<close>

theorem fetch_error_caught:
  "monitorIteration options previous
      \<lparr> fetched = FetchFailed ex, now = stamp, writeFailure = w, sigint = i \<rparr>
     = (previous,
        [Log [Text ''Retrieving clusters...''], GetClusters,
         Log [Text ''An error occured while fetching cluster data: '', Thrown ex]]
        @ awaitAsync (waitMSOf options) i,
        i \<noteq> NoInterrupt)
   \<and> snapshotsWritten (fst (snd (monitorIteration options previous
        \<lparr> fetched = FetchFailed ex, now = stamp, writeFailure = w, sigint = i \<rparr>))) = 0
   \<and> csvRows (fst (snd (monitorIteration options previous
        \<lparr> fetched = FetchFailed ex, now = stamp, writeFailure = w, sigint = i \<rparr>))) = 0
   \<and> monitorLoop options previous
        (\<lparr> fetched = FetchFailed ex, now = stamp, writeFailure = w, sigint = NoInterrupt \<rparr>
         # rest)
     = ([Log [Text ''Retrieving clusters...''], GetClusters,
         Log [Text ''An error occured while fetching cluster data: '', Thrown ex],
         Wait (waitMSOf options)]
        @ fst (monitorLoop options previous rest),
        snd (monitorLoop options previous rest))"
  by (simp add: monitorIteration_def Let_def caught_def awaitAsync_def split: prod.splits)


lemma showNat_digit: "n < 10 \<Longrightarrow> showNat n = [digit n]"
  by (simp add: showNat.simps)

text \<open>What one pass does, in terms of the snapshot it leaves behind.\<close>

lemma monitorIteration_snapshot:
  assumes "monitorIteration options before it = (after, effs, aborted)"
  shows "after = (case snapshotOf it of None \<Rightarrow> before | Some clusters \<Rightarrow> Some clusters)"
    and "snapshotsWritten effs = (if snapshotOf it = None then 0 else 1)"
    and "csvRows effs = (if snapshotOf it = None \<or> before = None then 0 else 1)"
proof -
  obtain comparison where
    "compareResults (the before) (case fetched it of Clusters cs \<Rightarrow> cs | _ \<Rightarrow> [])
       (ValidDate (now it)) = Inr comparison"
    using compareResults_valid by blast
  with assms
  show "after = (case snapshotOf it of None \<Rightarrow> before | Some clusters \<Rightarrow> Some clusters)"
    and "snapshotsWritten effs = (if snapshotOf it = None then 0 else 1)"
    and "csvRows effs = (if snapshotOf it = None \<or> before = None then 0 else 1)"
    by (auto simp: monitorIteration_def snapshotOf_def Let_def caught_def
        snapshotsWritten_append csvRows_append awaitAsync_counts
        split: fetchResult.splits option.splits sum.splits)
qed

text \<open>The exact trace of a pass whose fetch answers with a list and whose file is written.\<close>

lemma monitorIteration_written:
  assumes "fetched it = Clusters clusters" and "writeFailure it = None"
  shows "\<exists>rows. fst (snd (monitorIteration options known it))
       = [Log [Text ''Retrieving clusters...''], GetClusters,
          WriteFile (logFileOf (statusDirOf options) (now it)) clusters None,
          Log [Text ''Found '', Number (int (length clusters)), Text '' clusters\<newline>'']]
         @ rows @ awaitAsync (waitMSOf options) (sigint it)
     \<and> (case known of
           None \<Rightarrow> rows = []
         | Some earlier \<Rightarrow>
             (\<exists>comparison.
                compareResults earlier clusters (ValidDate (now it)) = Inr comparison
                \<and> rows = [StreamWrite (csvLine comparison '';'' @ ''\<newline>''),
                          Log [Text ''Comparison resulted in '', PrettyComparison comparison,
                               Text ''\<newline>'']]))"
proof (cases known)
  case None
  with assms show ?thesis
    by (simp add: monitorIteration_def Let_def)
next
  case (Some earlier)
  obtain comparison where
    "compareResults earlier clusters (ValidDate (now it)) = Inr comparison"
    using compareResults_valid by blast
  with Some assms show ?thesis
    by (simp add: monitorIteration_def Let_def)
qed

text \<open>
  Passes without SIGINT, followed by more passes: the loop goes through the first and
  goes on with the last snapshot they left.
\<close>

lemma monitorLoop_append:
  assumes "\<forall>p\<in>set earlier. sigint p = NoInterrupt"
  shows "monitorLoop options known (earlier @ rest)
     = (fst (monitorLoop options known earlier)
          @ fst (monitorLoop options (lastSnapshot known earlier) rest),
        snd (monitorLoop options (lastSnapshot known earlier) rest))"
  using assms
proof (induction earlier arbitrary: known)
  case Nil
  then show ?case by simp
next
  case (Cons p earlier)
  obtain after effs aborted where
    step: "monitorIteration options known p = (after, effs, aborted)"
    by (cases "monitorIteration options known p")
  from Cons.prems monitorIteration_counts(3) [OF step] have go: "\<not> aborted" by simp
  from monitorIteration_snapshot(1) [OF step]
  have after: "after = (case snapshotOf p of None \<Rightarrow> known | Some clusters \<Rightarrow> Some clusters)" .
  from Cons.prems have "\<forall>p\<in>set earlier. sigint p = NoInterrupt" by simp
  from Cons.IH [OF this, of after] step go after show ?case
    by (simp add: split_beta)
qed

lemma monitorLoop_fetches:
  assumes "\<forall>p\<in>set passes. sigint p = NoInterrupt"
  shows "fetches (fst (monitorLoop options known passes)) = length passes"
  using monitorLoop_running [OF assms, of options known]
  by (cases "monitorLoop options known passes") simp

text \<open>The snapshots and the CSV rows of the passes up to the one SIGINT arrives in.\<close>

lemma monitorLoop_written:
  assumes "\<forall>p\<in>set passes. sigint p = NoInterrupt" and "sigint final \<noteq> NoInterrupt"
    and "monitorLoop options known (passes @ final # unseen) = (effs, ended)"
  shows "snapshotsWritten effs = snapshots (passes @ [final])
     \<and> csvRows effs = (if known = None then snapshots (passes @ [final]) - 1
                        else snapshots (passes @ [final]))"
  using assms
proof (induction passes arbitrary: known effs ended)
  case Nil
  obtain after effs' aborted where
    step: "monitorIteration options known final = (after, effs', aborted)"
    by (cases "monitorIteration options known final")
  from monitorIteration_counts(3) [OF step] Nil.prems step have "effs = effs'" by simp
  with monitorIteration_snapshot(2,3) [OF step] show ?case
    by (simp add: snapshots_def)
next
  case (Cons p passes)
  obtain after effs1 aborted where
    step: "monitorIteration options known p = (after, effs1, aborted)"
    by (cases "monitorIteration options known p")
  obtain effs2 ended2 where
    rest: "monitorLoop options after (passes @ final # unseen) = (effs2, ended2)"
    by (cases "monitorLoop options after (passes @ final # unseen)")
  from Cons.prems(1) monitorIteration_counts(3) [OF step] have go: "\<not> aborted" by simp
  with Cons.prems(3) step rest have effs: "effs = effs1 @ effs2" by simp
  from Cons.prems(1) have "\<forall>p\<in>set passes. sigint p = NoInterrupt" by simp
  from Cons.IH [OF this Cons.prems(2) rest]
  have later: "snapshotsWritten effs2 = snapshots (passes @ [final])"
    "csvRows effs2 = (if after = None then snapshots (passes @ [final]) - 1
                      else snapshots (passes @ [final]))" by simp_all
  note one = monitorIteration_snapshot [OF step]
  show ?case
  proof (cases "snapshotOf p")
    case None
    with one later effs show ?thesis
      by (simp add: snapshots_def snapshotsWritten_append csvRows_append)
  next
    case (Some clusters)
    with one later effs show ?thesis
      by (simp add: snapshots_def snapshotsWritten_append csvRows_append)
  qed
qed

text \<open>
  C6 as stated fails on the first pass of a run that found no earlier snapshot: the
  fetch succeeds and the snapshot is written, but no CSV row is appended, since there is
  nothing to compare with.
\<close>

theorem first_pass_writes_no_csv_row:
  "monitorClusters defaultOptions freshRun
     = ([OnSigint, SignIn, Log [Text ''Sign in completed.\<newline>''],
         GetPreviousClusterStatus ''../cluster-monitoring-logs'',
         CreateWriteStream ''../cluster-monitoring-logs/cluster-monitoring.csv'',
         Log [Text ''Retrieving clusters...''], GetClusters,
         WriteFile ''../cluster-monitoring-logs/2021-06-01T10-00-00.000Z-clusters.json''
           [printerA, printerB] None,
         Log [Text ''Found '', Number 2, Text '' clusters\<newline>''],
         WaitAborted 60000, Log [Text ''Aborting the monitoring...''],
         StreamEnd],
        Fulfilled)
   \<and> snapshotsWritten (fst (monitorClusters defaultOptions freshRun)) = 1
   \<and> csvRows (fst (monitorClusters defaultOptions freshRun)) = 0"
  by (simp add: monitorClusters_def freshRun_def firstPass_def defaultOptions_def
      monitorIteration_def awaitAsync_def logFileOf_def statusDirOf_def waitMSOf_def
      comparisonFileOf_def Let_def)

text \<open>
  C6, amended. Take a run that signs in, reads the previous snapshot and makes its
  passes until SIGINT arrives in one of them. Sign-in happens exactly once, before
  anything else the run does; as long as no SIGINT has arrived the loop has not ended,
  and the pass in which it arrives is the last: the stream is closed and the run is
  fulfilled. Every pass of the run in which the fetch answers with a list of clusters
  and the snapshot file is written does this, in this order, after the passes before
  it: it fetches, writes exactly one JSON snapshot, appends exactly one CSV row, that
  of the comparison with the previous snapshot, when one is known (the one read at the
  start, or the one left by the last earlier pass that wrote one) and no row when none
  is known, and then waits. Over the run there are as many snapshots as such passes,
  and as many CSV rows, less one if no snapshot was read at the start.
\<close>

theorem monitorClusters_passes:
  assumes "signedIn run = Fulfilled" and "previousStatus run = Inr previous"
    and "\<not> sigintBeforeLoop run"
    and "iterations run = passes @ final # unseen"
    and "\<forall>p\<in>set passes. sigint p = NoInterrupt" and "sigint final \<noteq> NoInterrupt"
    and "monitorClusters options run = (trace, result)"
    and "passes @ [final] = earlier @ it # following"
    and "fetched it = Clusters clusters" and "writeFailure it = None"
  shows "(\<exists>headEffs rows tailEffs.
            trace = [OnSigint, SignIn, Log [Text ''Sign in completed.\<newline>''],
                     GetPreviousClusterStatus (statusDirOf options),
                     CreateWriteStream (comparisonFileOf options)]
                    @ headEffs
                    @ [Log [Text ''Retrieving clusters...''], GetClusters,
                       WriteFile (logFileOf (statusDirOf options) (now it)) clusters None,
                       Log [Text ''Found '', Number (int (length clusters)),
                            Text '' clusters\<newline>'']]
                    @ rows @ awaitAsync (waitMSOf options) (sigint it) @ tailEffs
            \<and> fetches headEffs = length earlier
            \<and> (case lastSnapshot previous earlier of
                  None \<Rightarrow> rows = []
                | Some known \<Rightarrow>
                    (\<exists>comparison.
                       compareResults known clusters (ValidDate (now it)) = Inr comparison
                       \<and> rows = [StreamWrite (csvLine comparison '';'' @ ''\<newline>''),
                                 Log [Text ''Comparison resulted in '',
                                      PrettyComparison comparison, Text ''\<newline>'']])))
     \<and> snapshotsWritten trace = snapshots (passes @ [final])
     \<and> csvRows trace = (if previous = None then snapshots (passes @ [final]) - 1
                         else snapshots (passes @ [final]))
     \<and> signIns trace = 1 \<and> take 2 trace = [OnSigint, SignIn]
     \<and> snd (monitorLoop options previous passes) = False
     \<and> fetches trace = Suc (length passes)
     \<and> result = Fulfilled \<and> last trace = StreamEnd"
proof -
  let ?opened = "[OnSigint, SignIn, Log [Text ''Sign in completed.\<newline>''],
      GetPreviousClusterStatus (statusDirOf options),
      CreateWriteStream (comparisonFileOf options)]"
  have running: "snd (monitorLoop options previous passes) = False"
    using monitorLoop_running [OF assms(5), of options previous]
    by (cases "monitorLoop options previous passes") simp
  obtain loopEffs ended where
    loop: "monitorLoop options previous (passes @ final # unseen) = (loopEffs, ended)"
    by (cases "monitorLoop options previous (passes @ final # unseen)")
  from monitorLoop_until_sigint [OF assms(5) assms(6) loop]
  have ended: "ended" "fetches loopEffs = Suc (length passes)" "signIns loopEffs = 0"
    by simp_all
  from assms(1-4) assms(7) loop ended(1)
  have trace: "trace = ?opened @ loopEffs @ [StreamEnd]"
    and result: "result = Fulfilled"
    by (auto simp: monitorClusters_def Let_def)
  from trace ended have shape: "signIns trace = 1" "take 2 trace = [OnSigint, SignIn]"
    "fetches trace = Suc (length passes)" "last trace = StreamEnd"
    by (simp_all add: signIns_append fetches_append)
  from monitorLoop_written [OF assms(5) assms(6) loop] trace
  have written: "snapshotsWritten trace = snapshots (passes @ [final])"
    "csvRows trace = (if previous = None then snapshots (passes @ [final]) - 1
                      else snapshots (passes @ [final]))"
    by (simp_all add: snapshotsWritten_append csvRows_append)
  have "butlast (passes @ [final]) = butlast (earlier @ it # following)"
    by (simp only: assms(8))
  then have "passes = earlier @ butlast (it # following)"
    by (simp add: butlast_append)
  with assms(5) have quiet: "\<forall>p\<in>set earlier. sigint p = NoInterrupt"
    by (metis Un_iff set_append)
  have "passes @ final # unseen = (passes @ [final]) @ unseen" by simp
  also have "\<dots> = earlier @ it # (following @ unseen)" by (simp only: assms(8)) simp
  finally have split: "passes @ final # unseen = earlier @ it # (following @ unseen)" .
  let ?known = "lastSnapshot previous earlier"
  obtain after effs aborted where
    step: "monitorIteration options ?known it = (after, effs, aborted)"
    by (cases "monitorIteration options ?known it")
  from monitorIteration_written [OF assms(9) assms(10), of options ?known] step
  obtain rows where effs: "effs
       = [Log [Text ''Retrieving clusters...''], GetClusters,
          WriteFile (logFileOf (statusDirOf options) (now it)) clusters None,
          Log [Text ''Found '', Number (int (length clusters)), Text '' clusters\<newline>'']]
         @ rows @ awaitAsync (waitMSOf options) (sigint it)"
    and rows: "case ?known of
           None \<Rightarrow> rows = []
         | Some known \<Rightarrow>
             (\<exists>comparison.
                compareResults known clusters (ValidDate (now it)) = Inr comparison
                \<and> rows = [StreamWrite (csvLine comparison '';'' @ ''\<newline>''),
                          Log [Text ''Comparison resulted in '', PrettyComparison comparison,
                               Text ''\<newline>'']])"
    by auto
  from step obtain tailLoop where
    "fst (monitorLoop options ?known (it # (following @ unseen))) = effs @ tailLoop"
    by (cases aborted) (simp_all add: split_beta)
  with monitorLoop_append [OF quiet, of options previous "it # (following @ unseen)"]
    loop split
  have "loopEffs = fst (monitorLoop options previous earlier) @ effs @ tailLoop"
    by simp
  with trace effs
  have "trace = ?opened @ fst (monitorLoop options previous earlier)
      @ [Log [Text ''Retrieving clusters...''], GetClusters,
         WriteFile (logFileOf (statusDirOf options) (now it)) clusters None,
         Log [Text ''Found '', Number (int (length clusters)), Text '' clusters\<newline>'']]
      @ rows @ awaitAsync (waitMSOf options) (sigint it) @ (tailLoop @ [StreamEnd])"
    by simp
  with rows monitorLoop_fetches [OF quiet, of options previous]
  have "\<exists>headEffs rows tailEffs.
            trace = ?opened @ headEffs
                    @ [Log [Text ''Retrieving clusters...''], GetClusters,
                       WriteFile (logFileOf (statusDirOf options) (now it)) clusters None,
                       Log [Text ''Found '', Number (int (length clusters)),
                            Text '' clusters\<newline>'']]
                    @ rows @ awaitAsync (waitMSOf options) (sigint it) @ tailEffs
            \<and> fetches headEffs = length earlier
            \<and> (case lastSnapshot previous earlier of
                  None \<Rightarrow> rows = []
                | Some known \<Rightarrow>
                    (\<exists>comparison.
                       compareResults known clusters (ValidDate (now it)) = Inr comparison
                       \<and> rows = [StreamWrite (csvLine comparison '';'' @ ''\<newline>''),
                                 Log [Text ''Comparison resulted in '',
                                      PrettyComparison comparison, Text ''\<newline>'']]))"
    by blast
  with written shape running result show ?thesis by simp
qed

text \<open>
  Two passes of a run that found no earlier snapshot: the first writes a snapshot and no
  CSV row, the second a snapshot and the row of its comparison with the first.
\<close>

theorem monitorClusters_passes_witness:
  "monitorClusters defaultOptions twoPassRun
     = ([OnSigint, SignIn, Log [Text ''Sign in completed.\<newline>''],
         GetPreviousClusterStatus ''../cluster-monitoring-logs'',
         CreateWriteStream ''../cluster-monitoring-logs/cluster-monitoring.csv'',
         Log [Text ''Retrieving clusters...''], GetClusters,
         WriteFile ''../cluster-monitoring-logs/2021-06-01T10-00-00.000Z-clusters.json''
           [printerA, printerB] None,
         Log [Text ''Found '', Number 2, Text '' clusters\<newline>''],
         Wait 60000,
         Log [Text ''Retrieving clusters...''], GetClusters,
         WriteFile ''../cluster-monitoring-logs/2021-06-01T10-01-00.000Z-clusters.json''
           [printerB] None,
         Log [Text ''Found '', Number 1, Text '' clusters\<newline>''],
         StreamWrite ''2021-06-01T10:01:00.000Z;;a;0;1\<newline>'',
         Log [Text ''Comparison resulted in '',
              PrettyComparison \<lparr> dateTime = ''2021-06-01T10:01:00.000Z'', appeared = [],
                gone = [''a''], onlineCount = 0, offlineCount = 1 \<rparr>,
              Text ''\<newline>''],
         WaitAborted 60000, Log [Text ''Aborting the monitoring...''],
         StreamEnd],
        Fulfilled)
   \<and> lastSnapshot None [firstPass] = Some [printerA, printerB]
   \<and> snapshotsWritten (fst (monitorClusters defaultOptions twoPassRun)) = 2
   \<and> csvRows (fst (monitorClusters defaultOptions twoPassRun)) = 1
   \<and> signIns (fst (monitorClusters defaultOptions twoPassRun)) = 1
   \<and> fetches (fst (monitorClusters defaultOptions twoPassRun)) = 2"
proof -
  have whole: "monitorClusters defaultOptions twoPassRun
     = ([OnSigint, SignIn, Log [Text ''Sign in completed.\<newline>''],
         GetPreviousClusterStatus ''../cluster-monitoring-logs'',
         CreateWriteStream ''../cluster-monitoring-logs/cluster-monitoring.csv'',
         Log [Text ''Retrieving clusters...''], GetClusters,
         WriteFile ''../cluster-monitoring-logs/2021-06-01T10-00-00.000Z-clusters.json''
           [printerA, printerB] None,
         Log [Text ''Found '', Number 2, Text '' clusters\<newline>''],
         Wait 60000,
         Log [Text ''Retrieving clusters...''], GetClusters,
         WriteFile ''../cluster-monitoring-logs/2021-06-01T10-01-00.000Z-clusters.json''
           [printerB] None,
         Log [Text ''Found '', Number 1, Text '' clusters\<newline>''],
         StreamWrite ''2021-06-01T10:01:00.000Z;;a;0;1\<newline>'',
         Log [Text ''Comparison resulted in '',
              PrettyComparison \<lparr> dateTime = ''2021-06-01T10:01:00.000Z'', appeared = [],
                gone = [''a''], onlineCount = 0, offlineCount = 1 \<rparr>,
              Text ''\<newline>''],
         WaitAborted 60000, Log [Text ''Aborting the monitoring...''],
         StreamEnd],
        Fulfilled)"
    by (simp add: monitorClusters_def twoPassRun_def firstPass_def
        monitorIteration_def lastPass_def defaultOptions_def awaitAsync_def
        logFileOf_def statusDirOf_def waitMSOf_def comparisonFileOf_def Let_def
        compareResults_def getOnlineClusterIds_def newSet_def setAdd_def setHas_def
        setSize_def printerA_def printerB_def csvLine_def showNumber_def showNat_digit
        digit_def)
  obtain trace result where
    run: "monitorClusters defaultOptions twoPassRun = (trace, result)"
    by (cases "monitorClusters defaultOptions twoPassRun")
  have known: "lastSnapshot None [firstPass] = Some [printerA, printerB]"
    by (simp add: snapshotOf_def firstPass_def)
  have count: "snapshots ([firstPass] @ [lastPass]) = 2"
    by (simp add: snapshots_def snapshotOf_def firstPass_def lastPass_def)
  have "signedIn twoPassRun = Fulfilled" "previousStatus twoPassRun = Inr None"
    "\<not> sigintBeforeLoop twoPassRun" "iterations twoPassRun = [firstPass] @ lastPass # []"
    "\<forall>p\<in>set [firstPass]. sigint p = NoInterrupt" "sigint lastPass \<noteq> NoInterrupt"
    "[firstPass] @ [lastPass] = [firstPass] @ lastPass # []"
    "fetched lastPass = Clusters [printerB]" "writeFailure lastPass = None"
    by (simp_all add: twoPassRun_def firstPass_def lastPass_def)
  from monitorClusters_passes [OF this(1-6) run this(7-9)] count run
  have "snapshotsWritten trace = 2" "csvRows trace = 1" "signIns trace = 1"
    "fetches trace = 2"
    by simp_all
  with run whole known show ?thesis by simp
qed

section \<open>Properties of the interactive demo\<close>

lemma endpoints_append: "endpoints (xs @ ys) = endpoints xs @ endpoints ys"
  by (induction xs rule: endpoints.induct) simp_all

lemma firstFailure_append:
  "firstFailure fails (xs @ ys)
     = (case firstFailure fails xs of None \<Rightarrow> firstFailure fails ys | Some ex \<Rightarrow> Some ex)"
  by (induction xs) (simp_all split: option.splits)

lemma upToFirstFailure_append:
  "upToFirstFailure fails (xs @ ys)
     = (case firstFailure fails xs of
          None \<Rightarrow> xs @ upToFirstFailure fails ys
        | Some ex \<Rightarrow> upToFirstFailure fails xs)"
  by (induction xs) (simp_all split: option.splits)

text \<open>Each stage of the demo, by the failures of its calls.\<close>

lemma uploadAndSubmit_failure:
  "endpoints (fst (uploadAndSubmit run pid))
     = upToFirstFailure (failure run)
         (if configured run then [UploadFileEndpoint, SubmitPrintJobEndpoint] else [])
   \<and> snd (uploadAndSubmit run pid)
     = firstFailure (failure run)
         (if configured run then [UploadFileEndpoint, SubmitPrintJobEndpoint] else [])"
proof (cases "configured run")
  case False
  then show ?thesis
    by (auto simp: uploadAndSubmit_def configured_def Let_def)
next
  case True
  then show ?thesis
    by (cases "uploadFileAnswer run"; cases "submitPrintJobAnswer run")
      (auto simp: uploadAndSubmit_def configured_def failed_def Let_def)
qed

lemma listRunningPrintJobs_failure:
  "endpoints (fst (listRunningPrintJobs run)) = [ListRunningJobsEndpoint]
   \<and> snd (listRunningPrintJobs run) = failure run ListRunningJobsEndpoint"
  by (auto simp: listRunningPrintJobs_def failed_def Let_def split: settles.splits list.splits)

lemma listProjects_failure:
  "endpoints (fst (listProjects run)) = [SearchProjectsEndpoint]
   \<and> snd (listProjects run) = failure run SearchProjectsEndpoint"
  by (auto simp: listProjects_def failed_def Let_def split: settles.splits list.splits)

text \<open>
  The endpoints a signed-in run invokes, and how it ends: the expected sequence up to
  the first call that fails.
\<close>

lemma main_stops_at_failure:
  assumes "authenticated run = Fulfilled"
  shows "endpoints (fst (main run)) = upToFirstFailure (failure run) (expectedEndpoints run)
     \<and> snd (main run)
       = (case firstFailure (failure run) (expectedEndpoints run) of
            None \<Rightarrow> Fulfilled | Some ex \<Rightarrow> RejectedWith ex)"
proof (cases "createProjectAnswer run")
  case (Throws ex)
  with assms show ?thesis by (simp add: main_def expectedEndpoints_def failed_def)
next
  case Missing
  with assms show ?thesis by (simp add: main_def expectedEndpoints_def failed_def)
next
  case (Gives pid)
  show ?thesis
  proof (cases "addCommentAnswer run")
    case (Some ex)
    with assms Gives show ?thesis by (simp add: main_def expectedEndpoints_def failed_def)
  next
    case None
    define mid where
      "mid = (if configured run then [UploadFileEndpoint, SubmitPrintJobEndpoint] else [])"
    obtain printed e1 where up: "uploadAndSubmit run pid = (printed, e1)"
      by (cases "uploadAndSubmit run pid")
    obtain jobs e2 where jobs: "listRunningPrintJobs run = (jobs, e2)"
      by (cases "listRunningPrintJobs run")
    obtain projects e3 where projects: "listProjects run = (projects, e3)"
      by (cases "listProjects run")
    from uploadAndSubmit_failure [of run pid] up
    have mid: "endpoints printed = upToFirstFailure (failure run) mid"
      "firstFailure (failure run) mid = e1" by (simp_all add: mid_def)
    from listRunningPrintJobs_failure [of run] jobs
    have l: "endpoints jobs = [ListRunningJobsEndpoint]"
      "failed (runningPrintJobsAnswer run) = e2" by simp_all
    from listProjects_failure [of run] projects
    have p: "endpoints projects = [SearchProjectsEndpoint]"
      "failed (searchProjectsAnswer run) = e3" by simp_all
    have front: "failed (createProjectAnswer run) = None" "addCommentAnswer run = None"
      using Gives None by (simp_all add: failed_def)
    have expected: "expectedEndpoints run
        = CreateProjectEndpoint # AddCommentEndpoint
          # (mid @ [ListRunningJobsEndpoint, SearchProjectsEndpoint])"
      by (simp add: expectedEndpoints_def mid_def)
    have invoked: "upToFirstFailure (failure run) (expectedEndpoints run)
        = CreateProjectEndpoint # AddCommentEndpoint
          # (case e1 of
               Some ex \<Rightarrow> upToFirstFailure (failure run) mid
             | None \<Rightarrow> mid @ ListRunningJobsEndpoint
                 # (case e2 of Some ex \<Rightarrow> [] | None \<Rightarrow> [SearchProjectsEndpoint]))"
      unfolding expected
      by (simp add: front upToFirstFailure_append mid l p
          split: option.splits)
    have ending: "firstFailure (failure run) (expectedEndpoints run)
        = (case e1 of
             Some ex \<Rightarrow> Some ex
           | None \<Rightarrow> (case e2 of Some ex \<Rightarrow> Some ex | None \<Rightarrow> e3))"
      unfolding expected
      by (simp add: front firstFailure_append mid l p split: option.splits)
    have unfolded: "main run
        = (let commented = [DemoSignIn, Say [Plain ''Sign in completed.\<newline>''],
                 Say [Plain ''Creating demo project...''],
                 Call (CreateProject ''Demo project''),
                 Say [Plain ''Created project with ID: '', Plain pid, Plain ''\<newline>''],
                 Say [Plain ''Adding comment to demo project...''],
                 Call (AddCommentToProject pid ''Demo comment''),
                 Say [Plain ''Comment added.\<newline>'']]
           in case e1 of
                Some ex \<Rightarrow> (commented @ printed, RejectedWith ex)
              | None \<Rightarrow>
                  (case e2 of
                     Some ex \<Rightarrow> (commented @ printed @ jobs, RejectedWith ex)
                   | None \<Rightarrow>
                       (case e3 of
                          Some ex \<Rightarrow> (commented @ printed @ jobs @ projects, RejectedWith ex)
                        | None \<Rightarrow> (commented @ printed @ jobs @ projects, Fulfilled))))"
      using assms Gives None up jobs projects
      by (simp add: main_def Let_def split: option.splits)
    have "endpoints (fst (main run))
        = CreateProjectEndpoint # AddCommentEndpoint
          # (case e1 of
               Some ex \<Rightarrow> upToFirstFailure (failure run) mid
             | None \<Rightarrow> mid @ ListRunningJobsEndpoint
                 # (case e2 of Some ex \<Rightarrow> [] | None \<Rightarrow> [SearchProjectsEndpoint]))"
    proof (cases e1)
      case (Some ex)
      then show ?thesis
        unfolding unfolded by (simp add: endpoints_append mid(1))
    next
      case e1: None
      then have whole: "upToFirstFailure (failure run) mid = mid"
        using mid(2) by (induction mid) (auto split: option.splits)
      from e1 show ?thesis
        unfolding unfolded
        by (cases e2; cases e3) (simp_all add: endpoints_append mid(1) whole l(1) p(1))
    qed
    moreover have "snd (main run)
        = (case (case e1 of
                   Some ex \<Rightarrow> Some ex
                 | None \<Rightarrow> (case e2 of Some ex \<Rightarrow> Some ex | None \<Rightarrow> e3)) of
             None \<Rightarrow> Fulfilled | Some ex \<Rightarrow> RejectedWith ex)"
      unfolding unfolded by (cases e1; cases e2; cases e3) simp_all
    ultimately show ?thesis
      by (simp only: invoked ending)
  qed
qed

lemma main_allAnswered:
  assumes "allAnswered run"
  shows "endpoints (fst (main run)) = expectedEndpoints run
    \<and> answersPrinted (fst (main run)) \<and> snd (main run) = Fulfilled"
proof -
  from assms obtain pid jobs projects where answers: "authenticated run = Fulfilled"
    "createProjectAnswer run = Gives pid" "addCommentAnswer run = None"
    "runningPrintJobsAnswer run = Gives jobs" "searchProjectsAnswer run = Gives projects"
    by (auto simp: allAnswered_def split: settles.splits)
  show ?thesis
  proof (cases "configured run")
    case False
    then have skip: "uploadAndSubmit run pid
        = ([Say [Plain (''(Skipping print job submission. Configure a cluster ID and UFP in ''
             @ [CHR 0x27] @ ''config.env'' @ [CHR 0x27] @ '' for this part of the demo.)'')]],
           None)"
      by (auto simp: uploadAndSubmit_def configured_def Let_def)
    from answers False skip show ?thesis
      by (cases jobs; cases projects)
        (simp_all add: main_def expectedEndpoints_def listRunningPrintJobs_def
          listProjects_def)
  next
    case True
    with assms obtain job_id uuid where more: "uploadFileAnswer run = Gives job_id"
      "submitPrintJobAnswer run = Gives uuid"
      by (auto simp: allAnswered_def split: settles.splits)
    from True more have sent: "uploadAndSubmit run pid
        = ([Say [Plain ''Uploading file to demo project...''],
            Call (UploadFileToProject pid (UFP_PATH run)),
            Say [Plain ''Uploaded file with ID: '', Plain job_id, Plain ''\<newline>''],
            Say [Plain ''Visit https://digitalfactory.ultimaker.com/app/library/project/'',
                 Plain pid, Plain '' to see your project\<newline>''],
            Say [Plain ''Submitting a print job''],
            Call (SubmitPrintJob job_id (CLUSTER_ID run)),
            Say [Plain ''Submitted print job with ID: '', Plain uuid, Plain ''\<newline>'']],
           None)"
      by (auto simp: uploadAndSubmit_def configured_def Let_def)
    from answers True sent show ?thesis
      by (cases jobs; cases projects)
        (simp_all add: main_def expectedEndpoints_def listRunningPrintJobs_def
          listProjects_def)
  qed
qed

text \<open>
  C7 as stated fails for a run with the placeholder configuration: every call is
  answered, yet upload-file and submit-print-job are never invoked.
\<close>

theorem main_skips_upload_and_submit:
  "allAnswered placeholderRun
   \<and> endpoints (fst (main placeholderRun))
       = [CreateProjectEndpoint, AddCommentEndpoint, ListRunningJobsEndpoint,
          SearchProjectsEndpoint]
   \<and> snd (main placeholderRun) = Fulfilled"
  by (simp add: allAnswered_def configured_def placeholderRun_def main_def
      uploadAndSubmit_def listRunningPrintJobs_def listProjects_def)

text \<open>
  C7, amended. In every run of the demo, sign-in comes first and no endpoint is invoked
  unless it completes. After it, the endpoints are invoked in the order create-project,
  add-comment, then upload-file and submit-print-job when the cluster and file are
  configured (not the placeholders) and neither of them otherwise, then
  list-running-jobs, search-projects; the run stops at the first call that fails, with
  the error of that call, and invokes nothing after it. When every call is answered,
  the whole sequence is invoked, each call is followed by a printed line about its
  answer, and the run is fulfilled.
\<close>

theorem main_endpoint_order:
  "hd (fst (main run)) = DemoSignIn
   \<and> (authenticated run = Fulfilled
        \<or> endpoints (fst (main run)) = [] \<and> snd (main run) = authenticated run)
   \<and> (authenticated run = Fulfilled \<longrightarrow>
        endpoints (fst (main run)) = upToFirstFailure (failure run) (expectedEndpoints run)
        \<and> snd (main run)
          = (case firstFailure (failure run) (expectedEndpoints run) of
               None \<Rightarrow> Fulfilled | Some ex \<Rightarrow> RejectedWith ex))
   \<and> (allAnswered run \<longrightarrow>
        endpoints (fst (main run)) = expectedEndpoints run
        \<and> answersPrinted (fst (main run))
        \<and> snd (main run) = Fulfilled)"
proof -
  have "hd (fst (main run)) = DemoSignIn"
    by (simp add: main_def Let_def split: settles.splits option.splits prod.splits)
  moreover have "authenticated run = Fulfilled
      \<or> endpoints (fst (main run)) = [] \<and> snd (main run) = authenticated run"
    by (simp add: main_def)
  ultimately show ?thesis
    using main_stops_at_failure [of run] main_allAnswered [of run] by blast
qed

text \<open>
  A configured run in which every call is answered invokes the six endpoints in order;
  the same run with a failing upload stops there.
\<close>

theorem main_endpoint_order_witness:
  "allAnswered configuredRun
   \<and> endpoints (fst (main configuredRun))
       = [CreateProjectEndpoint, AddCommentEndpoint, UploadFileEndpoint,
          SubmitPrintJobEndpoint, ListRunningJobsEndpoint, SearchProjectsEndpoint]
   \<and> answersPrinted (fst (main configuredRun))
   \<and> snd (main configuredRun) = Fulfilled
   \<and> authenticated failingRun = Fulfilled
   \<and> endpoints (fst (main failingRun))
       = [CreateProjectEndpoint, AddCommentEndpoint, UploadFileEndpoint]
   \<and> snd (main failingRun) = RejectedWith (IOError ''ENOENT'')"
proof -
  have answered: "allAnswered configuredRun"
    by (simp add: allAnswered_def configured_def configuredRun_def placeholderRun_def)
  have "expectedEndpoints configuredRun
       = [CreateProjectEndpoint, AddCommentEndpoint, UploadFileEndpoint,
          SubmitPrintJobEndpoint, ListRunningJobsEndpoint, SearchProjectsEndpoint]"
    by (simp add: expectedEndpoints_def configured_def configuredRun_def placeholderRun_def)
  with main_endpoint_order [of configuredRun] answered
  have whole: "endpoints (fst (main configuredRun))
       = [CreateProjectEndpoint, AddCommentEndpoint, UploadFileEndpoint,
          SubmitPrintJobEndpoint, ListRunningJobsEndpoint, SearchProjectsEndpoint]
   \<and> answersPrinted (fst (main configuredRun))
   \<and> snd (main configuredRun) = Fulfilled" by simp
  have signedIn: "authenticated failingRun = Fulfilled"
    by (simp add: failingRun_def configuredRun_def placeholderRun_def)
  have "upToFirstFailure (failure failingRun) (expectedEndpoints failingRun)
       = [CreateProjectEndpoint, AddCommentEndpoint, UploadFileEndpoint]"
    "firstFailure (failure failingRun) (expectedEndpoints failingRun)
       = Some (IOError ''ENOENT'')"
    by (simp_all add: expectedEndpoints_def configured_def failingRun_def configuredRun_def
        placeholderRun_def failed_def)
  with main_endpoint_order [of failingRun] signedIn
  have "endpoints (fst (main failingRun))
       = [CreateProjectEndpoint, AddCommentEndpoint, UploadFileEndpoint]
   \<and> snd (main failingRun) = RejectedWith (IOError ''ENOENT'')" by simp
  with answered whole signedIn show ?thesis by simp
qed

section \<open>Properties of the previous snapshot\<close>

lemma set_insertSorted: "set (insertSorted compareFn x ys) = insert x (set ys)"
  by (induction ys) auto

lemma set_arraySort: "set (arraySort compareFn xs) = set xs"
  by (induction xs) (simp_all add: arraySort_def set_insertSorted)

lemma arraySort_Cons:
  "arraySort compareFn (x # xs) = insertSorted compareFn x (arraySort compareFn xs)"
  by (simp add: arraySort_def)

lemma insertSorted_not_empty: "insertSorted compareFn x ys \<noteq> []"
  by (cases ys) simp_all

lemma arraySort_empty: "(arraySort compareFn xs = []) = (xs = [])"
  by (cases xs) (simp_all add: arraySort_def insertSorted_not_empty)

lemma ordersNames_total:
  "ordersNames compareFn names \<Longrightarrow> a \<in> names \<Longrightarrow> b \<in> names \<Longrightarrow>
     compareFn a b \<le> 0 \<or> compareFn b a \<le> 0"
  unfolding ordersNames_def by blast

lemma ordersNames_trans:
  "ordersNames compareFn names \<Longrightarrow> a \<in> names \<Longrightarrow> b \<in> names \<Longrightarrow> c \<in> names \<Longrightarrow>
     compareFn a b \<le> 0 \<Longrightarrow> compareFn b c \<le> 0 \<Longrightarrow> compareFn a c \<le> 0"
  unfolding ordersNames_def by blast

lemma ordersNames_subset:
  "ordersNames compareFn names \<Longrightarrow> fewer \<subseteq> names \<Longrightarrow> ordersNames compareFn fewer"
  unfolding ordersNames_def by blast

text \<open>
  The first element of the sorted array is below every element, in the order of the
  comparison function.
\<close>

lemma arraySort_first:
  assumes "ordersNames compareFn (set xs)" and "arraySort compareFn xs = first # others"
  shows "\<forall>x\<in>set xs. compareFn first x \<le> 0"
  using assms
proof (induction xs arbitrary: first others)
  case Nil
  then show ?case by (simp add: arraySort_def)
next
  case (Cons x xs)
  have sub: "ordersNames compareFn (set xs)"
    by (rule ordersNames_subset [OF Cons.prems(1)]) auto
  have x: "x \<in> set (x # xs)" by simp
  from ordersNames_total [OF Cons.prems(1) x x] have refl: "compareFn x x \<le> 0" by simp
  show ?case
  proof (cases "arraySort compareFn xs")
    case Nil
    then have "xs = []" by (simp add: arraySort_empty)
    with Cons.prems(2) refl show ?thesis by (simp add: arraySort_def)
  next
    case (Cons y ys)
    from Cons.IH [OF sub Cons] have below: "\<forall>z\<in>set xs. compareFn y z \<le> 0" .
    have "y \<in> set (arraySort compareFn xs)" by (simp add: Cons)
    then have y: "y \<in> set (x # xs)" by (simp add: set_arraySort)
    show ?thesis
    proof (cases "compareFn x y \<le> 0")
      case True
      with Cons.prems(2) Cons have first: "first = x"
        by (simp add: arraySort_Cons)
      have "compareFn x z \<le> 0" if "z \<in> set xs" for z
      proof -
        from that below have yz: "compareFn y z \<le> 0" by simp
        from that have z: "z \<in> set (x # xs)" by simp
        from ordersNames_trans [OF Cons.prems(1) x y z True yz] show ?thesis .
      qed
      with first refl show ?thesis by simp
    next
      case False
      with Cons.prems(2) Cons have first: "first = y"
        by (simp add: arraySort_Cons)
      from ordersNames_total [OF Cons.prems(1) x y] False have "compareFn y x \<le> 0" by simp
      with first below show ?thesis by simp
    qed
  qed
qed


lemma ordersNames_flip:
  "ordersNames compareFn names \<Longrightarrow> ordersNames (\<lambda>a b. compareFn b a) names"
  unfolding ordersNames_def by blast

lemma ordersNames_compareCodeUnits: "ordersNames compareCodeUnits names"
  unfolding ordersNames_def compareCodeUnits_def by (auto split: if_splits)

lemma codeUnitOrder_compareCodeUnits: "codeUnitOrder compareCodeUnits names"
  unfolding codeUnitOrder_def compareCodeUnits_def by auto

text \<open>
  The file the call reads: a name of the directory that ends in \<open>.json\<close> and that
  no other such name exceeds in the order of \<open>localeCompare\<close>.
\<close>

lemma lastFile_greatest:
  assumes "ordersNames (localeCompare rt) (set (jsonFiles entries))"
    and "arraySort (\<lambda>a b. localeCompare rt b a) (jsonFiles entries) = lastFile # others"
  shows "lastFile \<in> set (jsonFiles entries)"
    and "\<forall>file\<in>set (jsonFiles entries). localeCompare rt file lastFile \<le> 0"
proof -
  have "lastFile \<in> set (arraySort (\<lambda>a b. localeCompare rt b a) (jsonFiles entries))"
    by (simp add: assms(2))
  then show "lastFile \<in> set (jsonFiles entries)"
    by (simp add: set_arraySort)
  from arraySort_first [OF ordersNames_flip [OF assms(1)] assms(2)]
  show "\<forall>file\<in>set (jsonFiles entries). localeCompare rt file lastFile \<le> 0" .
qed

lemma greatest_is_Max:
  assumes "codeUnitOrder compareFn (set names)" and "lastFile \<in> set names"
    and "\<forall>file\<in>set names. compareFn file lastFile \<le> 0"
  shows "lastFile = Max (set names)"
proof -
  have "name \<le> lastFile" if "name \<in> set names" for name
    using assms that unfolding codeUnitOrder_def by blast
  with assms(2) have "Max (set names) = lastFile"
    by (intro Max_eqI) simp_all
  then show ?thesis by simp
qed

text \<open>
  C10 as stated fails in three ways. A path that exists and is not a directory makes the
  call reject with \<open>ENOTDIR\<close>; it neither returns \<open>null\<close> nor creates a directory.
  A latest snapshot whose text is not JSON (here an empty file) makes it reject with a
  \<open>SyntaxError\<close>. And the file read is the greatest in the order of
  \<open>localeCompare\<close>, which need not be the lexicographically greatest: with a
  collation that puts \<open>a\<close> before \<open>B\<close>, the call reads \<open>B.json\<close>, while
  \<open>a.json\<close> is the lexicographically greatest name.
\<close>

theorem getPreviousClusterStatus_rejects:
  "snd (getPreviousClusterStatus codeUnitRuntime None (Map.empty(''logs'' \<mapsto> RegularFile))
        ''logs'') = Inl (IOError ''ENOTDIR'')
   \<and> snd (getPreviousClusterStatus codeUnitRuntime None
        (logsAt [(''2021-06-01T10-00-00.000Z-clusters.json'', File [])]) ''logs'')
       = Inl SyntaxError
   \<and> snd (getPreviousClusterStatus collatingRuntime None
        (logsAt [(''a.json'', File []), (''B.json'', File ''[]'')]) ''logs'')
       = Inr (Parsed [])
   \<and> Max (set (jsonFiles [(''a.json'', File []), (''B.json'', File ''[]'')])) = ''a.json''"
  by (simp add: getPreviousClusterStatus_def codeUnitRuntime_def collatingRuntime_def
      logsAt_def jsonFiles_def endsWith_def arraySort_def compareIgnoringCase_def
      compareCodeUnits_def lowerCase_def parseEmptyArray_def)


text \<open>
  C10, amended. For every \<open>statusDir\<close>: when nothing exists at the path, the call
  creates the directory and returns \<open>null\<close>, or rejects with the error of
  \<open>mkdir\<close>; when the path exists and is not a directory it rejects with
  \<open>ENOTDIR\<close>; when the directory holds no name ending in \<open>.json\<close> it returns
  \<open>undefined\<close>, a falsy value. Otherwise, \<open>localeCompare\<close> ordering the names, it
  reads the entry with a name ending in \<open>.json\<close> that no other such name exceeds in
  the order of \<open>localeCompare\<close> (the lexicographically greatest one when
  \<open>localeCompare\<close> orders these names as the code units do, as for the timestamped
  snapshots), and returns its parsed contents when the entry is a file whose text
  parses; it rejects with the \<open>SyntaxError\<close> of \<open>JSON.parse\<close> when the text
  does not parse and with \<open>EISDIR\<close> when the entry is a directory. Only the
  creation of the directory changes the file system.
\<close>

theorem getPreviousClusterStatus_result:
  "(fs dir = None \<longrightarrow>
      getPreviousClusterStatus rt None fs dir = (fs(dir \<mapsto> Dir []), Inr Null)
      \<and> getPreviousClusterStatus rt (Some ex) fs dir = (fs, Inl ex))
   \<and> (fs dir = Some RegularFile \<longrightarrow>
      getPreviousClusterStatus rt mkdirFailure fs dir = (fs, Inl (IOError ''ENOTDIR'')))
   \<and> (fs dir = Some (Dir entries) \<and> jsonFiles entries = [] \<longrightarrow>
      getPreviousClusterStatus rt mkdirFailure fs dir = (fs, Inr Undefined))
   \<and> (fs dir = Some (Dir entries) \<and> jsonFiles entries \<noteq> []
        \<and> ordersNames (localeCompare rt) (set (jsonFiles entries)) \<longrightarrow>
      (\<exists>lastFile\<in>set (jsonFiles entries).
          (\<forall>name\<in>set (jsonFiles entries). localeCompare rt name lastFile \<le> 0)
          \<and> (codeUnitOrder (localeCompare rt) (set (jsonFiles entries)) \<longrightarrow>
               lastFile = Max (set (jsonFiles entries)))
          \<and> (\<forall>text v. map_of entries lastFile = Some (File text) \<and> JSON_parse rt text = Inr v
                \<longrightarrow> getPreviousClusterStatus rt mkdirFailure fs dir = (fs, Inr (Parsed v)))
          \<and> (\<forall>text err. map_of entries lastFile = Some (File text)
                \<and> JSON_parse rt text = Inl err
                \<longrightarrow> getPreviousClusterStatus rt mkdirFailure fs dir = (fs, Inl err))
          \<and> (map_of entries lastFile = Some Directory
                \<longrightarrow> getPreviousClusterStatus rt mkdirFailure fs dir
                    = (fs, Inl (IOError ''EISDIR'')))))"
proof (intro conjI impI)
  assume "fs dir = None"
  then show "getPreviousClusterStatus rt None fs dir = (fs(dir \<mapsto> Dir []), Inr Null)"
    and "getPreviousClusterStatus rt (Some ex) fs dir = (fs, Inl ex)"
    by (simp_all add: getPreviousClusterStatus_def)
next
  assume "fs dir = Some RegularFile"
  then show "getPreviousClusterStatus rt mkdirFailure fs dir = (fs, Inl (IOError ''ENOTDIR''))"
    by (simp add: getPreviousClusterStatus_def)
next
  assume "fs dir = Some (Dir entries) \<and> jsonFiles entries = []"
  then show "getPreviousClusterStatus rt mkdirFailure fs dir = (fs, Inr Undefined)"
    by (simp add: getPreviousClusterStatus_def arraySort_def)
next
  assume main: "fs dir = Some (Dir entries) \<and> jsonFiles entries \<noteq> []
    \<and> ordersNames (localeCompare rt) (set (jsonFiles entries))"
  then obtain lastFile others where
    sorted: "arraySort (\<lambda>a b. localeCompare rt b a) (jsonFiles entries) = lastFile # others"
    using arraySort_empty [of "\<lambda>a b. localeCompare rt b a" "jsonFiles entries"]
    by (cases "arraySort (\<lambda>a b. localeCompare rt b a) (jsonFiles entries)") simp_all
  from main have orders: "ordersNames (localeCompare rt) (set (jsonFiles entries))" by simp
  note greatest = lastFile_greatest [OF orders sorted]
  have "codeUnitOrder (localeCompare rt) (set (jsonFiles entries)) \<longrightarrow>
      lastFile = Max (set (jsonFiles entries))"
    using greatest_is_Max [of "localeCompare rt" "jsonFiles entries" lastFile] greatest
    by blast
  moreover have "\<forall>text v. map_of entries lastFile = Some (File text)
      \<and> JSON_parse rt text = Inr v
      \<longrightarrow> getPreviousClusterStatus rt mkdirFailure fs dir = (fs, Inr (Parsed v))"
    using main sorted by (simp add: getPreviousClusterStatus_def)
  moreover have "\<forall>text err. map_of entries lastFile = Some (File text)
      \<and> JSON_parse rt text = Inl err
      \<longrightarrow> getPreviousClusterStatus rt mkdirFailure fs dir = (fs, Inl err)"
    using main sorted by (simp add: getPreviousClusterStatus_def)
  moreover have "map_of entries lastFile = Some Directory
      \<longrightarrow> getPreviousClusterStatus rt mkdirFailure fs dir = (fs, Inl (IOError ''EISDIR''))"
    using main sorted by (simp add: getPreviousClusterStatus_def)
  ultimately show "\<exists>lastFile\<in>set (jsonFiles entries).
          (\<forall>name\<in>set (jsonFiles entries). localeCompare rt name lastFile \<le> 0)
          \<and> (codeUnitOrder (localeCompare rt) (set (jsonFiles entries)) \<longrightarrow>
               lastFile = Max (set (jsonFiles entries)))
          \<and> (\<forall>text v. map_of entries lastFile = Some (File text) \<and> JSON_parse rt text = Inr v
                \<longrightarrow> getPreviousClusterStatus rt mkdirFailure fs dir = (fs, Inr (Parsed v)))
          \<and> (\<forall>text err. map_of entries lastFile = Some (File text)
                \<and> JSON_parse rt text = Inl err
                \<longrightarrow> getPreviousClusterStatus rt mkdirFailure fs dir = (fs, Inl err))
          \<and> (map_of entries lastFile = Some Directory
                \<longrightarrow> getPreviousClusterStatus rt mkdirFailure fs dir
                    = (fs, Inl (IOError ''EISDIR'')))"
    using greatest by blast
qed

text \<open>
  A directory with two snapshots and the CSV log: the later snapshot is read. A path
  with nothing at it: the directory is created.
\<close>

theorem getPreviousClusterStatus_result_witness:
  "jsonFiles twoSnapshots
     = [''2021-06-01T10-01-00.000Z-clusters.json'', ''2021-06-01T10-00-00.000Z-clusters.json'']
   \<and> Max (set (jsonFiles twoSnapshots)) = ''2021-06-01T10-01-00.000Z-clusters.json''
   \<and> getPreviousClusterStatus codeUnitRuntime None (logsAt twoSnapshots) ''logs''
       = (logsAt twoSnapshots, Inr (Parsed []))
   \<and> getPreviousClusterStatus codeUnitRuntime None (logsAt twoSnapshots) ''other''
       = ((logsAt twoSnapshots)(''other'' \<mapsto> Dir []), Inr Null)"
proof -
  have names: "jsonFiles twoSnapshots
     = [''2021-06-01T10-01-00.000Z-clusters.json'', ''2021-06-01T10-00-00.000Z-clusters.json'']"
    by (simp add: jsonFiles_def twoSnapshots_def endsWith_def)
  have dir: "logsAt twoSnapshots ''logs'' = Some (Dir twoSnapshots)"
    and none: "logsAt twoSnapshots ''other'' = None"
    by (simp_all add: logsAt_def)
  have orders: "ordersNames (localeCompare codeUnitRuntime) (set (jsonFiles twoSnapshots))"
    and units: "codeUnitOrder (localeCompare codeUnitRuntime) (set (jsonFiles twoSnapshots))"
    by (simp_all add: codeUnitRuntime_def ordersNames_compareCodeUnits
        codeUnitOrder_compareCodeUnits)
  have greatest: "Max (set (jsonFiles twoSnapshots)) = ''2021-06-01T10-01-00.000Z-clusters.json''"
    by (simp add: names)
  have contents: "map_of twoSnapshots ''2021-06-01T10-01-00.000Z-clusters.json'' = Some (File ''[]'')"
    and parsed: "JSON_parse codeUnitRuntime ''[]'' = Inr []"
    by (simp_all add: twoSnapshots_def codeUnitRuntime_def parseEmptyArray_def)
  from getPreviousClusterStatus_result [where fs = "logsAt twoSnapshots"
      and rt = codeUnitRuntime and dir = "''logs''" and entries = twoSnapshots
      and mkdirFailure = None]
    dir names orders units greatest contents parsed
  have "getPreviousClusterStatus codeUnitRuntime None (logsAt twoSnapshots) ''logs''
       = (logsAt twoSnapshots, Inr (Parsed []))"
    by auto
  moreover from getPreviousClusterStatus_result [where fs = "logsAt twoSnapshots"
      and rt = codeUnitRuntime and dir = "''other''"] none
  have "getPreviousClusterStatus codeUnitRuntime None (logsAt twoSnapshots) ''other''
       = ((logsAt twoSnapshots)(''other'' \<mapsto> Dir []), Inr Null)"
    by simp
  ultimately show ?thesis using names greatest by simp
qed

end
